theory Spec2Isabelle
  imports Complex_Main
begin

section \<open>JavaScript values\<close>

text \<open>
  The service is TypeScript on Node. Request bodies and registry responses are parsed JSON,
  so the model works on JSON values. A JavaScript number is a \<open>jsnum\<close>: not-a-number,
  the two infinities, or a finite value. A string is the list of its code units, here the
  code units below 256. An absent property (\<open>undefined\<close>) is \<open>None\<close> of
  \<open>json option\<close>.
\<close>

datatype jsnum = NaN | NegInf | Fin rat | PosInf

datatype json =
    JNull
  | JBool bool
  | JNum jsnum
  | JStr string
  | JArr "json list"
  | JObj "(string \<times> json) list"

text \<open>\<open>a < b\<close> and \<open>a > b\<close> on numbers: every comparison with NaN is false.\<close>

fun js_lt :: "jsnum \<Rightarrow> jsnum \<Rightarrow> bool" where
  "js_lt NaN b = False"
| "js_lt a NaN = False"
| "js_lt a NegInf = False"
| "js_lt NegInf b = True"
| "js_lt PosInf b = False"
| "js_lt (Fin a) PosInf = True"
| "js_lt (Fin a) (Fin b) = (a < b)"

definition js_gt :: "jsnum \<Rightarrow> jsnum \<Rightarrow> bool" where
  "js_gt a b = js_lt b a"

definition isNaN :: "jsnum \<Rightarrow> bool" where
  "isNaN n = (n = NaN)"

fun js_neg :: "jsnum \<Rightarrow> jsnum" where
  "js_neg NaN = NaN"
| "js_neg NegInf = PosInf"
| "js_neg PosInf = NegInf"
| "js_neg (Fin q) = Fin (- q)"

text \<open>Truthiness, as \<open>!x\<close> and \<open>x || y\<close> read it.\<close>

fun truthy :: "json option \<Rightarrow> bool" where
  "truthy None = False"
| "truthy (Some JNull) = False"
| "truthy (Some (JBool b)) = b"
| "truthy (Some (JNum n)) = (n \<noteq> NaN \<and> n \<noteq> Fin 0)"
| "truthy (Some (JStr s)) = (s \<noteq> [])"
| "truthy (Some (JArr xs)) = True"
| "truthy (Some (JObj kvs)) = True"

text \<open>
  Property access \<open>v.k\<close> on a value that is neither \<open>null\<close> nor \<open>undefined\<close>, for the
  data keys this program reads (\<open>query\<close>, \<open>location\<close>, \<open>radius\<close>, \<open>success\<close>,
  \<open>error\<close>, \<open>vendor\<close>, \<open>vendors\<close>, \<open>id\<close>, \<open>url\<close>): an object gives the value stored
  under the key, every other value gives \<open>undefined\<close>. The association list holds the own
  properties of the parsed object, one entry per key.
\<close>

fun js_prop :: "json \<Rightarrow> string \<Rightarrow> json option" where
  "js_prop (JObj kvs) k = map_of kvs k"
| "js_prop v k = None"

subsection \<open>Strings\<close>

text \<open>White space and line terminators among the code units below 256.\<close>

definition is_ws :: "char \<Rightarrow> bool" where
  "is_ws c = ((of_char c :: nat) \<in> {9, 10, 11, 12, 13, 32, 160})"

definition trim :: "string \<Rightarrow> string" where
  "trim s = rev (dropWhile is_ws (rev (dropWhile is_ws s)))"

text \<open>\<open>s.split(d)\<close> for a one-character separator: never empty, one more part than separators.\<close>

fun split_on :: "char \<Rightarrow> string \<Rightarrow> string list" where
  "split_on d [] = [[]]"
| "split_on d (c # cs) =
     (if c = d then [] # split_on d cs
      else (case split_on d cs of [] \<Rightarrow> [[c]] | p # ps \<Rightarrow> (c # p) # ps))"

text \<open>\<open>s.includes(t)\<close>: \<open>t\<close> occurs in \<open>s\<close> as a contiguous substring.\<close>

fun starts_with :: "string \<Rightarrow> string \<Rightarrow> bool" where
  "starts_with s [] = True"
| "starts_with [] (c # t) = False"
| "starts_with (a # s) (c # t) = (a = c \<and> starts_with s t)"

fun str_includes :: "string \<Rightarrow> string \<Rightarrow> bool" where
  "str_includes [] t = (t = [])"
| "str_includes (a # s) t = (starts_with (a # s) t \<or> str_includes s t)"

text \<open>Decimal rendering of a number inside a template literal, for integers.\<close>

definition digit_char :: "nat \<Rightarrow> char" where
  "digit_char d = char_of (48 + d)"

fun nat_digits :: "nat \<Rightarrow> nat \<Rightarrow> string" where
  "nat_digits 0 n = []"
| "nat_digits (Suc fuel) n =
     (if n < 10 then [digit_char n] else nat_digits fuel (n div 10) @ [digit_char (n mod 10)])"

definition show_nat :: "nat \<Rightarrow> string" where
  "show_nat n = nat_digits (Suc n) n"

definition show_int :: "int \<Rightarrow> string" where
  "show_int i = (if i < 0 then CHR ''-'' # show_nat (nat (- i)) else show_nat (nat i))"

subsection \<open>parseFloat\<close>

text \<open>
  \<open>parseFloat\<close> skips leading white space and reads the longest prefix that is a
  \<open>StrDecimalLiteral\<close>: an optional sign, then \<open>Infinity\<close> or decimal digits with an
  optional fraction and an optional exponent; with no such prefix the result is NaN.
  The mathematical value of the literal is then rounded to a double. The rounding is the
  parameter \<open>rnd\<close>; \<open>fp_rounding\<close> states what the proofs use of round-to-nearest: it is
  monotone and leaves integers up to \<open>2^53\<close> in magnitude unchanged.
\<close>

definition is_digit :: "char \<Rightarrow> bool" where
  "is_digit c = (48 \<le> (of_char c :: nat) \<and> (of_char c :: nat) \<le> 57)"

definition digits_val :: "string \<Rightarrow> nat" where
  "digits_val ds = foldl (\<lambda>a c. 10 * a + (of_char c - 48)) 0 ds"

definition exponent_part :: "string \<Rightarrow> rat" where
  "exponent_part r =
     (case r of
        [] \<Rightarrow> 1
      | e # r3 \<Rightarrow>
          if e = CHR ''e'' \<or> e = CHR ''E'' then
            (let neg = (r3 \<noteq> [] \<and> hd r3 = CHR ''-'');
                 r4 = (if r3 \<noteq> [] \<and> (hd r3 = CHR ''+'' \<or> hd r3 = CHR ''-'') then tl r3 else r3);
                 ed = takeWhile is_digit r4
             in if ed = [] then 1
                else if neg then 1 / 10 ^ digits_val ed
                else 10 ^ digits_val ed)
          else 1)"

definition str_unsigned_decimal :: "string \<Rightarrow> jsnum" where
  "str_unsigned_decimal s =
     (if starts_with s ''Infinity'' then PosInf
      else
        (let ip = takeWhile is_digit s;
             r1 = dropWhile is_digit s;
             has_dot = (r1 \<noteq> [] \<and> hd r1 = CHR ''.'');
             fp = (if has_dot then takeWhile is_digit (tl r1) else []);
             r2 = (if has_dot then dropWhile is_digit (tl r1) else r1)
         in if ip = [] \<and> fp = [] then NaN
            else Fin (of_nat (digits_val (ip @ fp)) / 10 ^ length fp * exponent_part r2)))"

fun to_double :: "(rat \<Rightarrow> rat) \<Rightarrow> jsnum \<Rightarrow> jsnum" where
  "to_double rnd (Fin q) = Fin (rnd q)"
| "to_double rnd n = n"

definition parseFloat :: "(rat \<Rightarrow> rat) \<Rightarrow> string \<Rightarrow> jsnum" where
  "parseFloat rnd s =
     (case dropWhile is_ws s of
        [] \<Rightarrow> NaN
      | c # cs \<Rightarrow>
          if c = CHR ''-'' then js_neg (to_double rnd (str_unsigned_decimal cs))
          else if c = CHR ''+'' then to_double rnd (str_unsigned_decimal cs)
          else to_double rnd (str_unsigned_decimal (c # cs)))"

definition fp_rounding :: "(rat \<Rightarrow> rat) \<Rightarrow> bool" where
  "fp_rounding rnd =
     ((\<forall>x y. x \<le> y \<longrightarrow> rnd x \<le> rnd y) \<and>
      (\<forall>n::int. \<bar>n\<bar> \<le> 2 ^ 53 \<longrightarrow> rnd (of_int n) = of_int n))"

section \<open>Request validation (PlacesService.validateRequest)\<close>

text \<open>
  \<open>validateRequest\<close> pushes at most one message per field, in the order query, location,
  radius; the three blocks of the source are the three functions below and the result is
  their concatenation. A body that is not an object returns its one message at once.
\<close>

text \<open>A name between single quotes, as the messages print field names and examples.\<close>

definition sq :: "string \<Rightarrow> string" where
  "sq s = CHR 0x27 # s @ [CHR 0x27]"

definition msg_not_object :: string where
  "msg_not_object = ''Request body must be a JSON object''"
definition msg_query_missing :: string where
  "msg_query_missing = ''Missing required field: '' @ sq ''query''"
definition msg_query_type :: string where
  "msg_query_type = ''Field '' @ sq ''query'' @ '' must be a string''"
definition msg_query_empty :: string where
  "msg_query_empty = ''Field '' @ sq ''query'' @ '' cannot be empty''"
definition msg_query_long :: string where
  "msg_query_long = ''Field '' @ sq ''query'' @ '' must be less than 2048 characters''"
definition msg_location_type :: string where
  "msg_location_type =
     ''Field '' @ sq ''location'' @ '' must be a string in '' @ sq ''lat,lng'' @ '' format''"
definition msg_location_format :: string where
  "msg_location_format =
     ''Field '' @ sq ''location'' @ '' must be in '' @ sq ''lat,lng''
       @ '' format (e.g., '' @ sq ''37.7749,-122.4194'' @ '')''"
definition msg_location_numbers :: string where
  "msg_location_numbers =
     ''Field '' @ sq ''location'' @ '' must contain valid latitude and longitude numbers''"
definition msg_latitude :: string where
  "msg_latitude = ''Latitude must be between -90 and 90''"
definition msg_longitude :: string where
  "msg_longitude = ''Longitude must be between -180 and 180''"
definition msg_radius_type :: string where
  "msg_radius_type = ''Field '' @ sq ''radius'' @ '' must be a number''"
definition msg_radius_negative :: string where
  "msg_radius_negative = ''Field '' @ sq ''radius'' @ '' must be non-negative''"
definition msg_radius_large :: string where
  "msg_radius_large = ''Field '' @ sq ''radius'' @ '' must be 50000 meters or less''"

definition query_errors :: "json option \<Rightarrow> string list" where
  "query_errors q =
     (if \<not> truthy q then [msg_query_missing]
      else (case q of
              Some (JStr s) \<Rightarrow>
                if length (trim s) = 0 then [msg_query_empty]
                else if length s > 2048 then [msg_query_long]
                else []
            | _ \<Rightarrow> [msg_query_type]))"

definition location_errors :: "(rat \<Rightarrow> rat) \<Rightarrow> json option \<Rightarrow> string list" where
  "location_errors rnd loc =
     (case loc of
        None \<Rightarrow> []
      | Some (JStr s) \<Rightarrow>
          (case split_on CHR '','' s of
             [p0, p1] \<Rightarrow>
               (let lat = parseFloat rnd (trim p0); lng = parseFloat rnd (trim p1)
                in if isNaN lat \<or> isNaN lng then [msg_location_numbers]
                   else if js_lt lat (Fin (- 90)) \<or> js_gt lat (Fin 90) then [msg_latitude]
                   else if js_lt lng (Fin (- 180)) \<or> js_gt lng (Fin 180) then [msg_longitude]
                   else [])
           | _ \<Rightarrow> [msg_location_format])
      | Some _ \<Rightarrow> [msg_location_type])"

definition radius_errors :: "json option \<Rightarrow> string list" where
  "radius_errors r =
     (case r of
        None \<Rightarrow> []
      | Some (JNum n) \<Rightarrow>
          if js_lt n (Fin 0) then [msg_radius_negative]
          else if js_gt n (Fin 50000) then [msg_radius_large]
          else []
      | Some _ \<Rightarrow> [msg_radius_type])"

text \<open>\<open>typeof v === "object"\<close> holds of objects, arrays and \<open>null\<close>.\<close>

fun typeof_object :: "json \<Rightarrow> bool" where
  "typeof_object JNull = True"
| "typeof_object (JArr xs) = True"
| "typeof_object (JObj kvs) = True"
| "typeof_object v = False"

definition validateRequest :: "(rat \<Rightarrow> rat) \<Rightarrow> json option \<Rightarrow> string list" where
  "validateRequest rnd request =
     (case request of
        None \<Rightarrow> [msg_not_object]
      | Some r \<Rightarrow>
          if \<not> truthy (Some r) \<or> \<not> typeof_object r then [msg_not_object]
          else query_errors (js_prop r ''query'')
               @ location_errors rnd (js_prop r ''location'')
               @ radius_errors (js_prop r ''radius''))"

text \<open>The published input schema of the same endpoint (\<open>paymentRoutes\<close>, query property).\<close>

definition inputSchema_query_minLength :: nat where
  "inputSchema_query_minLength = 1"
definition inputSchema_query_maxLength :: nat where
  "inputSchema_query_maxLength = 512"

section \<open>The success response of POST /api/places/text-search\<close>

text \<open>
  \<open>PlacesService.textSearch\<close> returns, when the upstream search succeeds, an object with
  the keys \<open>status\<close>, \<open>results\<close> and \<open>metadata\<close>; its metadata holds the query, the
  fixed cost text and the time of the search.
\<close>

definition textSearch_response :: "string \<Rightarrow> json list \<Rightarrow> string \<Rightarrow> string \<Rightarrow> json" where
  "textSearch_response data_status places query now =
     JObj [(''status'', JStr data_status),
           (''results'', JArr places),
           (''metadata'', JObj [(''query'', JStr query),
                               (''cost'', JStr ''$0.01''),
                               (''timestamp'', JStr now)])]"

record PaymentConfig =
  payTo :: string
  facilitatorUrl :: string
  network :: string
  priceUsd :: string

text \<open>
  An object literal \<open>{...src, k: v}\<close> copies the own properties of the object \<open>src\<close> in
  order and then defines \<open>k\<close>: a key that is already there keeps its place and takes the
  new value, a new key goes to the end.
\<close>

definition obj_set :: "string \<Rightarrow> json \<Rightarrow> (string \<times> json) list \<Rightarrow> (string \<times> json) list" where
  "obj_set k v kvs =
     (if k \<in> fst ` set kvs then map (\<lambda>(k', v'). if k' = k then (k', v) else (k', v')) kvs
      else kvs @ [(k, v)])"

definition settlement_metadata :: "PaymentConfig \<Rightarrow> string \<Rightarrow> json" where
  "settlement_metadata x402Config now =
     JObj [(''cost'', JStr (''$'' @ priceUsd x402Config)),
           (''protocol'', JStr ''x402 v1.0''),
           (''payment_method'', JStr ''gasless_micropayment''),
           (''facilitator_used'', JBool True),
           (''network'', JStr (network x402Config)),
           (''timestamp'', JStr now)]"

definition success_body ::
  "PaymentConfig \<Rightarrow> string \<Rightarrow> (string \<times> json) list \<Rightarrow> (string \<times> json) list" where
  "success_body x402Config now searchResults =
     obj_set ''metadata'' (settlement_metadata x402Config now) searchResults"

text \<open>
  The route handler behind the payment middleware. The outcome of the search is the value
  \<open>textSearch\<close> resolves to, or \<open>None\<close> when it throws. Before it answers, the handler
  reads \<open>searchResults.results.length\<close> for its log line: this is a TypeError, caught and
  answered with 500, unless the value is an object whose \<open>results\<close> is neither absent nor
  \<open>null\<close>. Error bodies are summarised by their status and, for a rejected request, the
  validation messages.
\<close>

datatype http_response =
    BadRequest "string list"
  | InternalServerError
  | Ok200 "(string \<times> json) list"

definition text_search_handler ::
  "(rat \<Rightarrow> rat) \<Rightarrow> PaymentConfig \<Rightarrow> string \<Rightarrow> json option \<Rightarrow> json option \<Rightarrow> http_response" where
  "text_search_handler rnd x402Config now body search =
     (let validationErrors = validateRequest rnd body
      in if length validationErrors > 0 then BadRequest validationErrors
         else (case search of
                 Some (JObj searchResults) \<Rightarrow>
                   (case map_of searchResults ''results'' of
                      None \<Rightarrow> InternalServerError
                    | Some JNull \<Rightarrow> InternalServerError
                    | Some results \<Rightarrow> Ok200 (success_body x402Config now searchResults))
               | _ \<Rightarrow> InternalServerError))"

section \<open>Configuration loading\<close>

text \<open>
  The environment maps variable names to their values. \<open>process.env.X || d\<close> takes the
  default when the variable is unset or empty.
\<close>

type_synonym env = "string \<Rightarrow> string option"

definition env_truthy :: "string option \<Rightarrow> bool" where
  "env_truthy v = (case v of None \<Rightarrow> False | Some s \<Rightarrow> s \<noteq> [])"

definition env_or :: "string option \<Rightarrow> string \<Rightarrow> string" where
  "env_or v d = (case v of None \<Rightarrow> d | Some s \<Rightarrow> if s \<noteq> [] then s else d)"

text \<open>The network the program is configured with: \<open>process.env.NETWORK || "base"\<close>.\<close>

definition configured_network :: "env \<Rightarrow> string" where
  "configured_network e = env_or (e ''NETWORK'') ''base''"

datatype 'a startup = Exit nat | Proceeds 'a

subsection \<open>src/config/x402.ts (module load)\<close>

definition validNetworks :: "string list" where
  "validNetworks = [''base'', ''base-sepolia'', ''avalanche'', ''solana'']"

definition requiredEnvVars :: "env \<Rightarrow> (string \<times> string option) list" where
  "requiredEnvVars e =
     [(''GOOGLE_PLACES_API_KEY'', e ''GOOGLE_PLACES_API_KEY''),
      (''PAYMENT_WALLET_ADDRESS'', e ''PAYMENT_WALLET_ADDRESS''),
      (''FACILITATOR_URL'', Some (env_or (e ''FACILITATOR_URL'') ''https://x402.org/facilitator'')),
      (''NETWORK'', Some (env_or (e ''NETWORK'') ''base'')),
      (''PAYMENT_PRICE_USD'', Some (env_or (e ''PAYMENT_PRICE_USD'') ''0.01''))]"

definition missing_vars :: "(string \<times> string option) list \<Rightarrow> string list" where
  "missing_vars vars = map fst (filter (\<lambda>(key, value). \<not> env_truthy value) vars)"

definition required_value :: "(string \<times> string option) list \<Rightarrow> string \<Rightarrow> string" where
  "required_value vars k = (case map_of vars k of Some (Some s) \<Rightarrow> s | _ \<Rightarrow> [])"

definition load_x402_config :: "env \<Rightarrow> PaymentConfig startup" where
  "load_x402_config e =
     (let vars = requiredEnvVars e
      in if length (missing_vars vars) > 0 then Exit 1
         else if required_value vars ''NETWORK'' \<notin> set validNetworks then Exit 1
         else Proceeds \<lparr>payTo = required_value vars ''PAYMENT_WALLET_ADDRESS'',
                        facilitatorUrl = required_value vars ''FACILITATOR_URL'',
                        network = required_value vars ''NETWORK'',
                        priceUsd = required_value vars ''PAYMENT_PRICE_USD''\<rparr>)"

subsection \<open>lib/custom/config/api-config.ts (getConfig)\<close>

definition getConfig :: "env \<Rightarrow> PaymentConfig option" where
  "getConfig e =
     (let config = [(''GOOGLE_PLACES_API_KEY'', e ''GOOGLE_PLACES_API_KEY''),
                    (''PAYMENT_WALLET_ADDRESS'', e ''PAYMENT_WALLET_ADDRESS''),
                    (''FACILITATOR_URL'', e ''FACILITATOR_URL''),
                    (''NETWORK'', Some (env_or (e ''NETWORK'') ''base'')),
                    (''PAYMENT_PRICE_USD'', Some (env_or (e ''PAYMENT_PRICE_USD'') ''0.01''))];
          missing = map fst (filter (\<lambda>(key, value).
                      \<not> env_truthy value \<and> key \<noteq> ''NETWORK'' \<and> key \<noteq> ''PAYMENT_PRICE_USD'') config)
      in if length missing > 0 then None
         else Some \<lparr>payTo = required_value config ''PAYMENT_WALLET_ADDRESS'',
                    facilitatorUrl = required_value config ''FACILITATOR_URL'',
                    network = required_value config ''NETWORK'',
                    priceUsd = required_value config ''PAYMENT_PRICE_USD''\<rparr>)"

subsection \<open>Server start-up\<close>

text \<open>
  The server module imports \<open>config/x402\<close> (for the discovery document), so that module
  is loaded, and may exit, before the body of the server module runs. The body then calls
  \<open>getConfig\<close>, exits when it returns \<open>null\<close> and exits when the network is \<open>base\<close>
  without both CDP credentials.
\<close>

definition server_startup :: "env \<Rightarrow> PaymentConfig startup" where
  "server_startup e =
     (case load_x402_config e of
        Exit c \<Rightarrow> Exit c
      | Proceeds x402ConfigFromFile \<Rightarrow>
          (case getConfig e of
             None \<Rightarrow> Exit 1
           | Some x402Config \<Rightarrow>
               if network x402Config = ''base''
                  \<and> (\<not> env_truthy (e ''CDP_API_KEY_ID'') \<or> \<not> env_truthy (e ''CDP_API_KEY_SECRET''))
               then Exit 1
               else Proceeds x402Config))"

section \<open>Stack registration (StackRegistrationService)\<close>

text \<open>
  What a \<open>fetch\<close> followed by \<open>response.json()\<close> can give: the call rejects, or there is a
  response with its \<open>ok\<close> flag, its status and its body; the body is \<open>None\<close> when it is
  not JSON, so that \<open>response.json()\<close> rejects.
\<close>

datatype fetch_outcome = FetchThrows | Resp bool nat "json option"

record RegistrationConfig =
  stackUrl :: string
  selfUrl :: string
  name :: string
  description :: string
  category :: string
  retryAttempts :: int
  retryDelayMs :: int

record RegistrationResult =
  success :: bool
  vendorId :: "json option"
  error :: "json option"
  alreadyRegistered :: "bool option"

record StackRegistrationService =
  config :: RegistrationConfig
  registered :: bool

definition serviceDiscovery_service :: string where
  "serviceDiscovery_service = ''Places''"

definition serviceDiscovery_description :: string where
  "serviceDiscovery_description =
     ''Google Places API Wrapper with X402 gasless micropayments for comprehensive location search and business discovery''"

text \<open>
  The constructor: \<open>x || d\<close> replaces an absent or empty text, \<open>x ?? d\<close> only an absent
  number.
\<close>

definition new_StackRegistrationService ::
  "string \<Rightarrow> string \<Rightarrow> string option \<Rightarrow> string option \<Rightarrow> string option \<Rightarrow> int option \<Rightarrow> int option
     \<Rightarrow> StackRegistrationService" where
  "new_StackRegistrationService stackUrl_in selfUrl_in name_in description_in category_in
       retryAttempts_in retryDelayMs_in =
     \<lparr>config = \<lparr>stackUrl = stackUrl_in,
                 selfUrl = selfUrl_in,
                 name = env_or name_in serviceDiscovery_service,
                 description = env_or description_in serviceDiscovery_description,
                 category = env_or category_in ''api'',
                 retryAttempts = (case retryAttempts_in of None \<Rightarrow> 3 | Some n \<Rightarrow> n),
                 retryDelayMs = (case retryDelayMs_in of None \<Rightarrow> 5000 | Some d \<Rightarrow> d)\<rparr>,
      registered = False\<rparr>"

text \<open>\<open>a || d\<close> on values, and \<open>v?.id\<close>.\<close>

definition js_or :: "json option \<Rightarrow> json \<Rightarrow> json" where
  "js_or a d = (case a of None \<Rightarrow> d | Some v \<Rightarrow> if truthy (Some v) then v else d)"

definition optional_id :: "json option \<Rightarrow> json option" where
  "optional_id v = (case v of None \<Rightarrow> None | Some JNull \<Rightarrow> None | Some w \<Rightarrow> js_prop w ''id'')"

text \<open>
  One registration request. \<open>None\<close> is a thrown exception: the fetch or the body parse
  rejects, or the body is \<open>null\<close> and reading a property of it is a TypeError.
\<close>

definition attemptRegistration :: "fetch_outcome \<Rightarrow> RegistrationResult option" where
  "attemptRegistration out =
     (case out of
        FetchThrows \<Rightarrow> None
      | Resp ok status None \<Rightarrow> None
      | Resp ok status (Some JNull) \<Rightarrow> None
      | Resp ok status (Some data) \<Rightarrow>
          if \<not> ok \<or> \<not> truthy (js_prop data ''success'') then
            Some \<lparr>success = False, vendorId = None,
                  error = Some (js_or (js_prop data ''error'') (JStr (''HTTP '' @ show_nat status))),
                  alreadyRegistered = None\<rparr>
          else
            Some \<lparr>success = True, vendorId = optional_id (js_prop data ''vendor''),
                  error = None, alreadyRegistered = None\<rparr>)"

text \<open>
  \<open>v.includes(t)\<close> is a substring test on a string and a membership test on an array;
  no other value has the method, and the call is a TypeError (\<open>None\<close>).
\<close>

fun js_includes :: "json \<Rightarrow> string \<Rightarrow> bool option" where
  "js_includes (JStr s) t = Some (str_includes s t)"
| "js_includes (JArr xs) t = Some (JStr t \<in> set xs)"
| "js_includes v t = None"

text \<open>
  Putting a value into a template literal converts it to text. For a value read from JSON
  the conversion is a TypeError in one case only: an object with an own \<open>toString\<close>
  entry, which is never callable, so that neither it nor the inherited \<open>valueOf\<close> yields
  a primitive. An array converts its entries, except \<open>null\<close>, and joins them.
\<close>

fun converts_to_text :: "json \<Rightarrow> bool" where
  "converts_to_text (JObj kvs) = (map_of kvs ''toString'' = None)"
| "converts_to_text (JArr xs) = (\<forall>x\<in>set xs. converts_to_text x)"
| "converts_to_text v = True"

text \<open>
  The body of one round of the retry loop, up to the point where it returns or falls
  through to the wait. An exception anywhere in the \<open>try\<close> block is caught and the round
  goes on to the wait. On a successful result the flag is set first and the vendor id is
  logged next, still inside the \<open>try\<close>: when the id does not convert to text the round
  does not return, with the flag already set (\<open>RegisteredLogThrows\<close>). The warning that
  prints \<open>result.error\<close> after a failed round can throw in the same way, with no
  further effect.
\<close>

datatype attempt_verdict =
    Registered RegistrationResult
  | RegisteredLogThrows
  | AlreadyRegistered
  | Failed

definition attempt_round :: "fetch_outcome \<Rightarrow> attempt_verdict" where
  "attempt_round out =
     (case attemptRegistration out of
        None \<Rightarrow> Failed
      | Some result \<Rightarrow>
          if success result then
            (case vendorId result of
               None \<Rightarrow> Registered result
             | Some ident \<Rightarrow>
                 if converts_to_text ident then Registered result else RegisteredLogThrows)
          else (case error result of
                  None \<Rightarrow> Failed
                | Some JNull \<Rightarrow> Failed
                | Some e \<Rightarrow>
                    (case js_includes e ''already registered'' of
                       Some True \<Rightarrow> AlreadyRegistered
                     | Some False \<Rightarrow> Failed
                     | None \<Rightarrow> Failed)))"

text \<open>
  The effects of \<open>register\<close> that the registry and the clock see: each request with its
  attempt number, and each wait with its length in milliseconds. Console output is left out.
\<close>

datatype event = Attempt int | Delay int

definition already_result :: RegistrationResult where
  "already_result = \<lparr>success = True, vendorId = None, error = None, alreadyRegistered = Some True\<rparr>"

definition failure_result :: "RegistrationConfig \<Rightarrow> RegistrationResult" where
  "failure_result c =
     \<lparr>success = False, vendorId = None,
      error = Some (JStr (''Registration failed after '' @ show_int (retryAttempts c) @ '' attempts'')),
      alreadyRegistered = None\<rparr>"

text \<open>
  The loop \<open>for (attempt = 1; attempt <= retryAttempts; attempt++)\<close>. The registry is the
  function from the attempt number to what that request gives. The result tells whether
  the \<open>registered\<close> flag was set and lists the events in order.
\<close>

function register_loop ::
  "RegistrationConfig \<Rightarrow> (int \<Rightarrow> fetch_outcome) \<Rightarrow> int \<Rightarrow> RegistrationResult \<times> bool \<times> event list" where
  "register_loop c registry attempt =
     (if attempt \<le> retryAttempts c then
        (case attempt_round (registry attempt) of
           Registered result \<Rightarrow> (result, True, [Attempt attempt])
         | AlreadyRegistered \<Rightarrow> (already_result, True, [Attempt attempt])
         | RegisteredLogThrows \<Rightarrow>
             (let wait = (if attempt < retryAttempts c then [Delay (retryDelayMs c)] else []);
                  (result, flag, evs) = register_loop c registry (attempt + 1)
              in (result, True, Attempt attempt # wait @ evs))
         | Failed \<Rightarrow>
             (let wait = (if attempt < retryAttempts c then [Delay (retryDelayMs c)] else []);
                  (result, flag, evs) = register_loop c registry (attempt + 1)
              in (result, flag, Attempt attempt # wait @ evs)))
      else (failure_result c, False, []))"
  by pat_completeness auto
termination
  by (relation "measure (\<lambda>(c, registry, attempt). nat (retryAttempts c + 1 - attempt))") auto

definition register ::
  "StackRegistrationService \<Rightarrow> (int \<Rightarrow> fetch_outcome)
     \<Rightarrow> RegistrationResult \<times> StackRegistrationService \<times> event list" where
  "register svc registry =
     (if registered svc then (already_result, svc, [])
      else (let (result, flag, evs) = register_loop (config svc) registry 1
            in (result, if flag then svc\<lparr>registered := True\<rparr> else svc, evs)))"

subsection \<open>verifyRegistration\<close>

text \<open>\<open>s.replace(/\/$/, "")\<close>: one slash at the very end of the text is removed.\<close>

definition strip_slash :: "string \<Rightarrow> string" where
  "strip_slash s = (if s \<noteq> [] \<and> last s = CHR ''/'' then butlast s else s)"

text \<open>
  The callback of \<open>vendors.find\<close>. \<open>None\<close> is a TypeError: the entry is \<open>null\<close>, or the
  first comparison fails and the entry's \<open>url\<close> is not a text, so that it has no
  \<open>replace\<close> method.
\<close>

definition url_matches :: "string \<Rightarrow> json \<Rightarrow> bool option" where
  "url_matches self v =
     (case v of
        JNull \<Rightarrow> None
      | _ \<Rightarrow>
        (case js_prop v ''url'' of
           Some (JStr u) \<Rightarrow> Some (u = self \<or> strip_slash u = strip_slash self)
         | _ \<Rightarrow> None))"

text \<open>\<open>Array.prototype.find\<close>: the first entry the callback accepts; \<open>Inl ()\<close> when the callback throws.\<close>

fun find_vendor :: "string \<Rightarrow> json list \<Rightarrow> unit + json option" where
  "find_vendor self [] = Inr None"
| "find_vendor self (v # vs) =
     (case url_matches self v of
        None \<Rightarrow> Inl ()
      | Some True \<Rightarrow> Inr (Some v)
      | Some False \<Rightarrow> find_vendor self vs)"

text \<open>\<open>(data.vendors || []).find(...)\<close>, with every TypeError on the way.\<close>

definition our_vendor :: "string \<Rightarrow> json option \<Rightarrow> unit + json option" where
  "our_vendor self body =
     (case body of
        None \<Rightarrow> Inl ()
      | Some JNull \<Rightarrow> Inl ()
      | Some data \<Rightarrow>
          (case js_or (js_prop data ''vendors'') (JArr []) of
             JArr vendors \<Rightarrow> find_vendor self vendors
           | _ \<Rightarrow> Inl ()))"

record VerifyResult =
  is_registered :: bool
  vendor_id :: "json option"

definition verifyRegistration ::
  "StackRegistrationService \<Rightarrow> fetch_outcome \<Rightarrow> VerifyResult \<times> StackRegistrationService" where
  "verifyRegistration svc out =
     (case out of
        FetchThrows \<Rightarrow> (\<lparr>is_registered = False, vendor_id = None\<rparr>, svc)
      | Resp ok status body \<Rightarrow>
          if \<not> ok then (\<lparr>is_registered = False, vendor_id = None\<rparr>, svc)
          else (case our_vendor (selfUrl (config svc)) body of
                  Inl u \<Rightarrow> (\<lparr>is_registered = False, vendor_id = None\<rparr>, svc)
                | Inr ourVendor \<Rightarrow>
                    if truthy ourVendor then
                      (\<lparr>is_registered = True,
                        vendor_id = (case ourVendor of None \<Rightarrow> None | Some v \<Rightarrow> js_prop v ''id'')\<rparr>,
                       svc\<lparr>registered := True\<rparr>)
                    else (\<lparr>is_registered = False, vendor_id = None\<rparr>, svc)))"


subsection \<open>GET /api/register/status\<close>

text \<open>
  The status route repeats the lookup with the server's own URL. It answers 200 with
  \<open>registered: false\<close> and an error text when the registry's answer is not ok, 200 with
  \<open>registered\<close> and \<open>vendor\<close> (\<open>null\<close> when none matches) otherwise, and 500 when
  anything throws.
\<close>

datatype status_response = StackUnreachable | Status200 bool json | Status500

definition register_status :: "string \<Rightarrow> fetch_outcome \<Rightarrow> status_response" where
  "register_status serverUrl out =
     (case out of
        FetchThrows \<Rightarrow> Status500
      | Resp ok status body \<Rightarrow>
          if \<not> ok then StackUnreachable
          else (case our_vendor serverUrl body of
                  Inl u \<Rightarrow> Status500
                | Inr ourVendor \<Rightarrow> Status200 (truthy ourVendor) (js_or ourVendor JNull)))"

subsection \<open>Operations on one service instance\<close>




subsection \<open>The instances the program creates\<close>






section \<open>Notions the specification uses\<close>

text \<open>
  The two numbers a location text is read as, when it has exactly two comma-separated
  parts.
\<close>

definition location_coords :: "(rat \<Rightarrow> rat) \<Rightarrow> string \<Rightarrow> (jsnum \<times> jsnum) option" where
  "location_coords rnd loc =
     (case split_on CHR '','' loc of
        [p0, p1] \<Rightarrow> Some (parseFloat rnd (trim p0), parseFloat rnd (trim p1))
      | _ \<Rightarrow> None)"

text \<open>A number inside the closed interval, and a number (finite or infinite) outside it.\<close>

fun in_range :: "rat \<Rightarrow> rat \<Rightarrow> jsnum \<Rightarrow> bool" where
  "in_range lo hi (Fin x) = (lo \<le> x \<and> x \<le> hi)"
| "in_range lo hi n = False"

fun out_of_range :: "rat \<Rightarrow> rat \<Rightarrow> jsnum \<Rightarrow> bool" where
  "out_of_range lo hi (Fin x) = (x < lo \<or> hi < x)"
| "out_of_range lo hi NaN = False"
| "out_of_range lo hi n = True"

text \<open>A location, or a radius, that is absent or valid.\<close>

definition location_ok :: "(rat \<Rightarrow> rat) \<Rightarrow> json option \<Rightarrow> bool" where
  "location_ok rnd loc =
     (case loc of
        None \<Rightarrow> True
      | Some (JStr s) \<Rightarrow>
          (case location_coords rnd s of
             None \<Rightarrow> False
           | Some (lat, lng) \<Rightarrow> in_range (- 90) 90 lat \<and> in_range (- 180) 180 lng)
      | Some _ \<Rightarrow> False)"

definition radius_ok :: "json option \<Rightarrow> bool" where
  "radius_ok r =
     (case r of None \<Rightarrow> True | Some (JNum n) \<Rightarrow> in_range 0 50000 n | Some _ \<Rightarrow> False)"

text \<open>The request body \<open>{query: q, location: loc}\<close>.\<close>

definition body_query_location :: "string \<Rightarrow> string \<Rightarrow> json option" where
  "body_query_location q loc = Some (JObj [(''query'', JStr q), (''location'', JStr loc)])"

text \<open>
  The events of a run in which rounds \<open>1\<close> to \<open>n\<close> all fail, out of \<open>attempts\<close> configured
  attempts with \<open>d\<close> milliseconds between them: a wait follows every failed round but the
  last configured one.
\<close>

definition failed_rounds :: "int \<Rightarrow> int \<Rightarrow> int \<Rightarrow> event list" where
  "failed_rounds attempts d n =
     concat (map (\<lambda>k. if k < attempts then [Attempt k, Delay d] else [Attempt k]) [1..n])"

fun is_attempt :: "event \<Rightarrow> bool" where
  "is_attempt (Attempt k) = True"
| "is_attempt (Delay d) = False"

text \<open>The text ends in a slash.\<close>

definition ends_with_slash :: "string \<Rightarrow> bool" where
  "ends_with_slash s = (s \<noteq> [] \<and> last s = CHR ''/'')"

text \<open>The registry's answer \<open>200 {vendors: [...]}\<close>.\<close>

definition vendor_list_response :: "json list \<Rightarrow> fetch_outcome" where
  "vendor_list_response vendors = Resp True 200 (Some (JObj [(''vendors'', JArr vendors)]))"

text \<open>
  The configuration an environment describes: wallet, facilitator URL, network and price,
  with the defaults of \<open>config/x402\<close>.
\<close>

definition configured :: "env \<Rightarrow> PaymentConfig" where
  "configured e =
     \<lparr>payTo = env_or (e ''PAYMENT_WALLET_ADDRESS'') [],
      facilitatorUrl = env_or (e ''FACILITATOR_URL'') ''https://x402.org/facilitator'',
      network = configured_network e,
      priceUsd = env_or (e ''PAYMENT_PRICE_USD'') ''0.01''\<rparr>"

text \<open>A vendor entry that carries a \<open>url\<close> text, as the type of the entries says.\<close>

definition has_url :: "json \<Rightarrow> bool" where
  "has_url v = (case js_prop v ''url'' of Some (JStr u) \<Rightarrow> True | _ \<Rightarrow> False)"

text \<open>
  A registry response that indicates "already registered": an unsuccessful answer whose
  error text contains these words.
\<close>

definition indicates_already_registered :: "fetch_outcome \<Rightarrow> bool" where
  "indicates_already_registered out =
     (case out of
        Resp ok status (Some (JObj kvs)) \<Rightarrow>
          (\<not> ok \<or> \<not> truthy (map_of kvs ''success'')) \<and>
          (case map_of kvs ''error'' of
             Some (JStr e) \<Rightarrow> str_includes e ''already registered''
           | _ \<Rightarrow> False)
      | _ \<Rightarrow> False)"

text \<open>
  A round that fails with no sign of "already registered", told from what the registry
  gives: the request or the reading of its body rejects, the body is \<open>null\<close>, or the
  answer is unsuccessful (not ok, or without a true \<open>success\<close>) and its \<open>error\<close> is
  neither a text containing the words "already registered" nor a list holding them.
\<close>

fun mentions_already_registered :: "json option \<Rightarrow> bool" where
  "mentions_already_registered (Some (JStr e)) = str_includes e ''already registered''"
| "mentions_already_registered (Some (JArr xs)) = (JStr ''already registered'' \<in> set xs)"
| "mentions_already_registered v = False"

definition attempt_fails :: "fetch_outcome \<Rightarrow> bool" where
  "attempt_fails out =
     (case out of
        FetchThrows \<Rightarrow> True
      | Resp ok status None \<Rightarrow> True
      | Resp ok status (Some data) \<Rightarrow>
          data = JNull \<or>
          ((\<not> ok \<or> \<not> truthy (js_prop data ''success'')) \<and>
           \<not> mentions_already_registered (js_prop data ''error'')))"

section \<open>Example inputs\<close>

text \<open>
  A service built with the default retry settings, a registry that never answers, one that
  answers "already registered" to the second request, a vendor list holding this
  service with a trailing slash, and a sequence of later operations.
\<close>

definition svc0 :: StackRegistrationService where
  "svc0 = new_StackRegistrationService ''http://localhost:3005'' ''http://localhost:3000''
            None None None None None"

definition registry_down :: "int \<Rightarrow> fetch_outcome" where
  "registry_down k = FetchThrows"

definition already_response :: fetch_outcome where
  "already_response =
     Resp True 200 (Some (JObj [(''success'', JBool False), (''error'', JStr ''already registered'')]))"

definition registry_second_already :: "int \<Rightarrow> fetch_outcome" where
  "registry_second_already k = (if k = 2 then already_response else Resp False 503 None)"

text \<open>
  An unsuccessful answer that does not mention registration, and a registry whose first
  request times out, whose second is answered 503 and whose later ones are answered so.
\<close>

definition busy_response :: fetch_outcome where
  "busy_response =
     Resp True 200 (Some (JObj [(''success'', JBool False), (''error'', JStr ''server busy'')]))"

definition registry_failing :: "int \<Rightarrow> fetch_outcome" where
  "registry_failing k =
     (if k = 1 then FetchThrows else if k = 2 then Resp False 503 (Some (JObj []))
      else busy_response)"



text \<open>
  A service registered under a given URL and a vendor entry of the registry; an
  environment naming a network outside the supported set and one naming a supported
  network; a configuration, a search result and a request body.
\<close>

definition service_at :: "string \<Rightarrow> StackRegistrationService" where
  "service_at url = new_StackRegistrationService ''http://localhost:3005'' url None None None None None"

definition vendor_entry :: "string \<Rightarrow> string \<Rightarrow> json" where
  "vendor_entry url ident = JObj [(''url'', JStr url), (''id'', JStr ident)]"

definition env_unsupported :: env where
  "env_unsupported =
     [''GOOGLE_PLACES_API_KEY'' \<mapsto> ''key'',
      ''PAYMENT_WALLET_ADDRESS'' \<mapsto> ''0x1111111111111111111111111111111111111111'',
      ''FACILITATOR_URL'' \<mapsto> ''https://stack.perkos.xyz'',
      ''NETWORK'' \<mapsto> ''ethereum'']"

definition env_avalanche :: env where
  "env_avalanche = env_unsupported(''NETWORK'' \<mapsto> ''avalanche'')"

definition config_example :: PaymentConfig where
  "config_example =
     \<lparr>payTo = ''0x1111111111111111111111111111111111111111'',
      facilitatorUrl = ''https://stack.perkos.xyz'',
      network = ''avalanche'',
      priceUsd = ''0.05''\<rparr>"

definition search_example :: json where
  "search_example = textSearch_response ''OK'' [] ''coffee shops'' ''2025-01-01T00:00:00.000Z''"

definition search_fields :: "(string \<times> json) list" where
  "search_fields =
     [(''status'', JStr ''OK''), (''results'', JArr []),
      (''metadata'', JObj [(''query'', JStr ''coffee shops''), (''cost'', JStr ''$0.01''),
                          (''timestamp'', JStr ''2025-01-01T00:00:00.000Z'')])]"

definition body_example :: "json option" where
  "body_example = Some (JObj [(''query'', JStr ''coffee shops'')])"

text \<open>
  An environment with no network named (so \<open>base\<close>) and no CDP credentials, and one
  with a supported network but no facilitator URL; a registry that accepts every
  request, the environment with no variable set, and a healthy answer to the probe.
\<close>

definition env_base_without_cdp :: env where
  "env_base_without_cdp = env_unsupported(''NETWORK'' := None)"

definition env_without_facilitator :: env where
  "env_without_facilitator = env_avalanche(''FACILITATOR_URL'' := None)"





section \<open>Properties of request validation\<close>

lemmas parse_defs = parseFloat_def str_unsigned_decimal_def is_digit_def digits_val_def
  exponent_part_def trim_def is_ws_def

lemma fp_rounding_int: "fp_rounding rnd \<Longrightarrow> \<bar>n\<bar> \<le> 2 ^ 53 \<Longrightarrow> rnd (of_int n) = of_int n"
  by (simp add: fp_rounding_def)

lemma fp_rounding_between:
  assumes "fp_rounding rnd" "\<bar>a\<bar> \<le> 2 ^ 53" "\<bar>b\<bar> \<le> 2 ^ 53" "of_int a \<le> x" "x \<le> of_int b"
  shows "of_int a \<le> rnd x \<and> rnd x \<le> of_int b"
proof -
  from assms(1) have mono: "\<And>u v. u \<le> v \<Longrightarrow> rnd u \<le> rnd v"
    by (simp add: fp_rounding_def)
  have "rnd (of_int a) \<le> rnd x" "rnd x \<le> rnd (of_int b)"
    using mono assms(4,5) by blast+
  then show ?thesis
    using fp_rounding_int[OF assms(1,2)] fp_rounding_int[OF assms(1,3)] by simp
qed

lemma in_range_no_error:
  "in_range lo hi n \<Longrightarrow> \<not> isNaN n \<and> \<not> js_lt n (Fin lo) \<and> \<not> js_gt n (Fin hi)"
  by (cases n) (auto simp: isNaN_def js_gt_def)

lemma out_of_range_error:
  "out_of_range lo hi n \<Longrightarrow> \<not> isNaN n \<and> (js_lt n (Fin lo) \<or> js_gt n (Fin hi))"
  by (cases n) (auto simp: isNaN_def js_gt_def)

lemma location_errors_shapes:
  "location_errors rnd (Some (JStr loc)) =
     (case location_coords rnd loc of
        None \<Rightarrow> [msg_location_format]
      | Some (lat, lng) \<Rightarrow>
          if isNaN lat \<or> isNaN lng then [msg_location_numbers]
          else if js_lt lat (Fin (- 90)) \<or> js_gt lat (Fin 90) then [msg_latitude]
          else if js_lt lng (Fin (- 180)) \<or> js_gt lng (Fin 180) then [msg_longitude]
          else [])"
  by (simp add: location_errors_def location_coords_def Let_def split: list.splits)

lemma coords_sf: "location_coords rnd ''37.7749,-122.4194'' =
   Some (Fin (rnd (377749 / 10000)), Fin (- rnd (1224194 / 10000)))"
  by (simp add: location_coords_def parse_defs)

lemma coords_one: "location_coords rnd ''37.7749'' = None"
  by (simp add: location_coords_def)

lemma coords_200: "location_coords rnd ''200,-122.4194'' =
   Some (Fin (rnd 200), Fin (- rnd (1224194 / 10000)))"
  by (simp add: location_coords_def parse_defs)

lemma length_split_on: "length (split_on d s) = Suc (count_list s d)"
  by (induction s) (auto split: list.splits)

lemma location_coords_parts:
  "length (split_on CHR '','' loc) \<noteq> 2 \<Longrightarrow> location_coords rnd loc = None"
  by (auto simp: location_coords_def split: list.splits)

lemma trim_Nil: "trim [] = []"
  by (simp add: trim_def)

lemma query_errors_valid:
  assumes "trim q \<noteq> []" "length q \<le> 2048"
  shows "query_errors (Some (JStr q)) = []"
proof -
  from assms(1) have "q \<noteq> []" using trim_Nil by auto
  with assms show ?thesis by (simp add: query_errors_def)
qed

lemma validateRequest_body:
  assumes "trim q \<noteq> []" "length q \<le> 2048"
  shows "validateRequest rnd (body_query_location q loc) = location_errors rnd (Some (JStr loc))"
  using query_errors_valid[OF assms]
  by (simp add: validateRequest_def body_query_location_def radius_errors_def)

lemma location_errors_ok: "location_ok rnd loc \<Longrightarrow> location_errors rnd loc = []"
proof (cases loc)
  case None
  then show ?thesis by (simp add: location_errors_def)
next
  case (Some v)
  assume ok: "location_ok rnd loc"
  show ?thesis
  proof (cases v)
    case (JStr s)
    with ok Some obtain lat lng where c: "location_coords rnd s = Some (lat, lng)"
      and r: "in_range (- 90) 90 lat" "in_range (- 180) 180 lng"
      by (auto simp: location_ok_def split: option.splits)
    from in_range_no_error[OF r(1)] in_range_no_error[OF r(2)] c
    show ?thesis unfolding Some JStr location_errors_shapes by simp
  qed (use ok Some in \<open>simp_all add: location_ok_def\<close>)
qed

lemma radius_errors_ok: "radius_ok r \<Longrightarrow> radius_errors r = []"
proof (cases r)
  case None
  then show ?thesis by (simp add: radius_errors_def)
next
  case (Some v)
  assume ok: "radius_ok r"
  show ?thesis
  proof (cases v)
    case (JNum n)
    with ok Some have "in_range 0 50000 n" by (simp add: radius_ok_def)
    from in_range_no_error[OF this] show ?thesis
      unfolding Some JNum by (simp add: radius_errors_def)
  qed (use ok Some in \<open>simp_all add: radius_ok_def\<close>)
qed

lemma msgs_distinct:
  "distinct [msg_location_format, msg_latitude, msg_location_type, msg_location_numbers,
     msg_longitude, msg_not_object, msg_query_missing, msg_query_type, msg_query_empty,
     msg_query_long, msg_radius_type, msg_radius_negative, msg_radius_large]"
  by (simp add: msg_location_format_def msg_latitude_def msg_location_type_def
      msg_location_numbers_def msg_longitude_def msg_not_object_def msg_query_missing_def
      msg_query_type_def msg_query_empty_def msg_query_long_def msg_radius_type_def
      msg_radius_negative_def msg_radius_large_def sq_def)

text \<open>
  Claim C9. With any valid query, \<open>validateRequest\<close> reports nothing for the location
  \<open>37.7749,-122.4194\<close>, reports the part-count message for \<open>37.7749\<close> and the latitude
  message for \<open>200,-122.4194\<close>. The two messages differ from each other and from every
  message issued for another field or check; the first names the field \<open>location\<close>, the
  second the latitude. The same holds by shape: a text that does not
  split at commas into exactly two parts gets the part-count message, two numbers in range
  get none, and two numbers with the latitude outside \<open>[-90, 90]\<close> get the latitude
  message.
\<close>

theorem validateRequest_location_shapes:
  assumes rnd: "fp_rounding rnd" and q: "trim q \<noteq> []" "length q \<le> 2048"
  shows
    "validateRequest rnd (body_query_location q ''37.7749,-122.4194'') = [] \<and>
     validateRequest rnd (body_query_location q ''37.7749'') = [msg_location_format] \<and>
     validateRequest rnd (body_query_location q ''200,-122.4194'') = [msg_latitude] \<and>
     distinct [msg_location_format, msg_latitude, msg_location_type, msg_location_numbers,
       msg_longitude, msg_not_object, msg_query_missing, msg_query_type, msg_query_empty,
       msg_query_long, msg_radius_type, msg_radius_negative, msg_radius_large] \<and>
     str_includes msg_location_format (sq ''location'') \<and>
     str_includes msg_latitude ''Latitude'' \<and>
     (length (split_on CHR '','' loc) \<noteq> 2 \<longrightarrow>
        validateRequest rnd (body_query_location q loc) = [msg_location_format]) \<and>
     (\<forall>lat lng. location_coords rnd loc = Some (lat, lng) \<and>
        in_range (- 90) 90 lat \<and> in_range (- 180) 180 lng \<longrightarrow>
        validateRequest rnd (body_query_location q loc) = []) \<and>
     (\<forall>lat lng. location_coords rnd loc = Some (lat, lng) \<and>
        out_of_range (- 90) 90 lat \<and> \<not> isNaN lng \<longrightarrow>
        validateRequest rnd (body_query_location q loc) = [msg_latitude])"
proof -
  have lat1: "- 90 \<le> rnd (377749 / 10000) \<and> rnd (377749 / 10000) \<le> 90"
    using fp_rounding_between[OF rnd, of "- 90" 90 "377749 / 10000"] by simp
  have lng1: "- 180 \<le> rnd (1224194 / 10000) \<and> rnd (1224194 / 10000) \<le> 180"
    using fp_rounding_between[OF rnd, of "- 180" 180 "1224194 / 10000"] by simp
  have lat2: "rnd 200 = 200"
    using fp_rounding_int[OF rnd, of 200] by simp
  have a: "location_errors rnd (Some (JStr ''37.7749,-122.4194'')) = []"
    unfolding location_errors_shapes coords_sf using lat1 lng1
    by (simp add: isNaN_def js_gt_def)
  have b: "location_errors rnd (Some (JStr ''37.7749'')) = [msg_location_format]"
    unfolding location_errors_shapes coords_one by simp
  have c: "location_errors rnd (Some (JStr ''200,-122.4194'')) = [msg_latitude]"
    unfolding location_errors_shapes coords_200 using lat2
    by (simp add: isNaN_def js_gt_def)
  have d: "length (split_on CHR '','' loc) \<noteq> 2 \<Longrightarrow>
        location_errors rnd (Some (JStr loc)) = [msg_location_format]"
    unfolding location_errors_shapes by (simp add: location_coords_parts)
  have e: "location_errors rnd (Some (JStr loc)) = []"
    if "location_coords rnd loc = Some (lat, lng)" "in_range (- 90) 90 lat"
       "in_range (- 180) 180 lng" for lat lng
    using that(1) in_range_no_error[OF that(2)] in_range_no_error[OF that(3)]
    unfolding location_errors_shapes by simp
  have f: "location_errors rnd (Some (JStr loc)) = [msg_latitude]"
    if "location_coords rnd loc = Some (lat, lng)" "out_of_range (- 90) 90 lat" "\<not> isNaN lng"
    for lat lng
    using that(1,3) out_of_range_error[OF that(2)]
    unfolding location_errors_shapes by auto
  have g: "str_includes msg_location_format (sq ''location'')"
    "str_includes msg_latitude ''Latitude''"
    by (simp_all add: msg_location_format_def msg_latitude_def sq_def)
  show ?thesis
    unfolding validateRequest_body[OF q] using a b c d e f g msgs_distinct by blast
qed

theorem validateRequest_location_shapes_witness:
  "fp_rounding (\<lambda>x. x) \<and> trim ''coffee shops'' \<noteq> [] \<and> length ''coffee shops'' \<le> 2048 \<and>
   validateRequest (\<lambda>x. x) (body_query_location ''coffee shops'' ''37.7749,-122.4194'') = [] \<and>
   validateRequest (\<lambda>x. x) (body_query_location ''coffee shops'' ''37.7749'')
     = [msg_location_format] \<and>
   validateRequest (\<lambda>x. x) (body_query_location ''coffee shops'' ''200,-122.4194'')
     = [msg_latitude] \<and>
   length (split_on CHR '','' ''1,2,3'') = 3 \<and>
   validateRequest (\<lambda>x. x) (body_query_location ''coffee shops'' ''1,2,3'')
     = [msg_location_format] \<and>
   location_coords (\<lambda>x. x) ''10,20'' = Some (Fin 10, Fin 20) \<and>
   in_range (- 90) 90 (Fin 10) \<and> in_range (- 180) 180 (Fin 20) \<and>
   validateRequest (\<lambda>x. x) (body_query_location ''coffee shops'' ''10,20'') = [] \<and>
   location_coords (\<lambda>x. x) ''-91,0'' = Some (Fin (- 91), Fin 0) \<and>
   out_of_range (- 90) 90 (Fin (- 91)) \<and> \<not> isNaN (Fin 0) \<and>
   validateRequest (\<lambda>x. x) (body_query_location ''coffee shops'' ''-91,0'') = [msg_latitude]"
proof -
  have r: "fp_rounding (\<lambda>x. x)"
    by (simp add: fp_rounding_def)
  have q: "trim ''coffee shops'' \<noteq> []" "length ''coffee shops'' \<le> 2048"
    by (simp_all add: trim_def is_ws_def)
  have c0: "length (split_on CHR '','' ''1,2,3'') = 3"
    by simp
  then have c1: "length (split_on CHR '','' ''1,2,3'') \<noteq> 2"
    by simp
  have c2: "location_coords (\<lambda>x. x) ''10,20'' = Some (Fin 10, Fin 20)"
    by (simp add: location_coords_def parse_defs)
  have c3: "location_coords (\<lambda>x. x) ''-91,0'' = Some (Fin (- 91), Fin 0)"
    by (simp add: location_coords_def parse_defs)
  have r2: "in_range (- 90) 90 (Fin 10)" "in_range (- 180) 180 (Fin 20)"
    by simp_all
  have r3: "out_of_range (- 90) 90 (Fin (- 91))" "\<not> isNaN (Fin 0)"
    by (simp_all add: isNaN_def)
  note t1 = validateRequest_location_shapes[OF r q, of "''1,2,3''"]
  note t2 = validateRequest_location_shapes[OF r q, of "''10,20''"]
  note t3 = validateRequest_location_shapes[OF r q, of "''-91,0''"]
  show ?thesis
    using r q c0 c1 c2 c3 r2 r3 t1 t2 t3 by blast
qed

text \<open>
  Claim C10. A request object whose query is a text that is non-empty after trimming and
  at most 2048 long, with location and radius absent or valid, has no validation error;
  there are such queries longer than the 512 that the published input schema gives as
  \<open>maxLength\<close>.
\<close>

theorem validateRequest_accepts_valid:
  assumes "map_of kvs ''query'' = Some (JStr q)" "trim q \<noteq> []" "length q \<le> 2048"
    and "location_ok rnd (map_of kvs ''location'')" "radius_ok (map_of kvs ''radius'')"
  shows "validateRequest rnd (Some (JObj kvs)) = [] \<and>
    (\<exists>q'. inputSchema_query_maxLength < length q' \<and> length q' \<le> 2048 \<and>
       validateRequest rnd (Some (JObj [(''query'', JStr q')])) = [])"
proof -
  have main: "validateRequest rnd (Some (JObj kvs')) = []"
    if "map_of kvs' ''query'' = Some (JStr q')" "trim q' \<noteq> []" "length q' \<le> 2048"
      "location_ok rnd (map_of kvs' ''location'')" "radius_ok (map_of kvs' ''radius'')"
    for kvs' q'
    using query_errors_valid[OF that(2,3)] location_errors_ok[OF that(4)]
      radius_errors_ok[OF that(5)] that(1)
    by (simp add: validateRequest_def)
  let ?q = "replicate 513 CHR ''a''"
  have t: "trim ?q = ?q"
    by (simp add: trim_def is_ws_def)
  have "validateRequest rnd (Some (JObj [(''query'', JStr ?q)])) = []"
    by (rule main[where q' = ?q]) (simp_all add: t location_ok_def radius_ok_def)
  moreover have "inputSchema_query_maxLength < length ?q" "length ?q \<le> 2048"
    by (simp_all add: inputSchema_query_maxLength_def)
  ultimately show ?thesis
    using main[OF assms] by blast
qed

theorem validateRequest_accepts_valid_witness:
  "map_of [(''query'', JStr (replicate 2048 CHR ''x'')), (''location'', JStr ''37.5,-122.25''),
      (''radius'', JNum (Fin 1000))] ''query'' = Some (JStr (replicate 2048 CHR ''x'')) \<and>
   trim (replicate 2048 CHR ''x'') \<noteq> [] \<and>
   inputSchema_query_maxLength < length (replicate 2048 CHR ''x'') \<and>
   length (replicate 2048 CHR ''x'') \<le> 2048 \<and>
   validateRequest (\<lambda>x. x) (Some (JObj [(''query'', JStr (replicate 2048 CHR ''x'')),
      (''location'', JStr ''37.5,-122.25''), (''radius'', JNum (Fin 1000))])) = []"
proof -
  let ?q = "replicate 2048 CHR ''x''"
  let ?kvs = "[(''query'', JStr ?q), (''location'', JStr ''37.5,-122.25''),
      (''radius'', JNum (Fin 1000))]"
  have h1: "map_of ?kvs ''query'' = Some (JStr ?q)" by simp
  have h2: "trim ?q \<noteq> []" by (simp add: trim_def is_ws_def)
  have h3: "length ?q \<le> 2048" by simp
  have h4: "location_ok (\<lambda>x. x) (map_of ?kvs ''location'')"
    by (simp add: location_ok_def location_coords_def parse_defs)
  have h5: "radius_ok (map_of ?kvs ''radius'')"
    by (simp add: radius_ok_def)
  have h6: "inputSchema_query_maxLength < length ?q"
    by (simp add: inputSchema_query_maxLength_def)
  from validateRequest_accepts_valid[OF h1 h2 h3 h4 h5] h1 h2 h3 h6
  show ?thesis by blast
qed

section \<open>Properties of the registration service\<close>

declare register_loop.simps [simp del]

lemma register_loop_exhausted:
  "retryAttempts c < a \<Longrightarrow> register_loop c registry a = (failure_result c, False, [])"
  by (simp add: register_loop.simps)

lemma register_loop_failed_step:
  assumes "a \<le> retryAttempts c" "attempt_round (registry a) = Failed"
  shows "register_loop c registry a =
     (case register_loop c registry (a + 1) of
        (result, flag, evs) \<Rightarrow>
          (result, flag,
           (if a < retryAttempts c then [Attempt a, Delay (retryDelayMs c)] else [Attempt a]) @ evs))"
  using assms by (subst register_loop.simps) (simp add: Let_def split: prod.splits)

lemma register_loop_thrown_step:
  assumes "a \<le> retryAttempts c" "attempt_round (registry a) = RegisteredLogThrows"
  shows "register_loop c registry a =
     (case register_loop c registry (a + 1) of
        (result, flag, evs) \<Rightarrow>
          (result, True,
           (if a < retryAttempts c then [Attempt a, Delay (retryDelayMs c)] else [Attempt a]) @ evs))"
  using assms by (subst register_loop.simps) (simp add: Let_def split: prod.splits)

lemma register_loop_stops:
  assumes "a \<le> retryAttempts c" "attempt_round (registry a) = AlreadyRegistered"
  shows "register_loop c registry a = (already_result, True, [Attempt a])"
  using assms by (subst register_loop.simps) simp

lemma register_loop_all_failed:
  assumes "\<forall>k. a \<le> k \<and> k \<le> retryAttempts c \<longrightarrow> attempt_round (registry k) = Failed"
  shows "register_loop c registry a =
     (failure_result c, False,
      concat (map (\<lambda>k. if k < retryAttempts c then [Attempt k, Delay (retryDelayMs c)]
                         else [Attempt k]) [a..retryAttempts c]))"
  using assms
proof (induction "nat (retryAttempts c + 1 - a)" arbitrary: a)
  case 0
  then have "retryAttempts c < a" by simp
  then show ?case by (simp add: register_loop_exhausted)
next
  case (Suc n)
  then have le: "a \<le> retryAttempts c" by simp
  with Suc.prems have f: "attempt_round (registry a) = Failed" by simp
  have n: "n = nat (retryAttempts c + 1 - (a + 1))" using Suc.hyps(2) by simp
  have rest: "\<forall>k. a + 1 \<le> k \<and> k \<le> retryAttempts c \<longrightarrow> attempt_round (registry k) = Failed"
    using Suc.prems by simp
  show ?case
    unfolding register_loop_failed_step[where registry = registry, OF le f] Suc.hyps(1)[OF n rest]
    using le by (simp add: upto_rec1[of a])
qed

lemma register_loop_already:
  assumes "\<forall>j. a \<le> j \<and> j < k \<longrightarrow>
       attempt_round (registry j) = Failed \<or> attempt_round (registry j) = RegisteredLogThrows"
    and "a \<le> k" "k \<le> retryAttempts c"
    and "attempt_round (registry k) = AlreadyRegistered"
  shows "register_loop c registry a =
     (already_result, True,
      concat (map (\<lambda>j. [Attempt j, Delay (retryDelayMs c)]) [a..k - 1]) @ [Attempt k])"
  using assms
proof (induction "nat (k - a)" arbitrary: a)
  case 0
  then have "a = k" by simp
  then show ?case using 0 by (simp add: register_loop_stops)
next
  case (Suc n)
  then have lt: "a < k" by simp
  with Suc.prems have le: "a \<le> retryAttempts c" and ltN: "a < retryAttempts c" by simp_all
  have n: "n = nat (k - (a + 1))" using Suc.hyps(2) by simp
  have rest: "\<forall>j. a + 1 \<le> j \<and> j < k \<longrightarrow>
       attempt_round (registry j) = Failed \<or> attempt_round (registry j) = RegisteredLogThrows"
    using Suc.prems by simp
  have le': "a + 1 \<le> k" using lt by simp
  note IH = Suc.hyps(1)[OF n rest le' Suc.prems(3) Suc.prems(4)]
  from Suc.prems lt consider (failed) "attempt_round (registry a) = Failed"
    | (thrown) "attempt_round (registry a) = RegisteredLogThrows"
    by auto
  then show ?case
  proof cases
    case failed
    show ?thesis
      unfolding register_loop_failed_step[where registry = registry, OF le failed] IH
      using lt ltN by (simp add: upto_rec1[of a "k - 1"])
  next
    case thrown
    show ?thesis
      unfolding register_loop_thrown_step[where registry = registry, OF le thrown] IH
      using lt ltN by (simp add: upto_rec1[of a "k - 1"])
  qed
qed


lemma str_includes_nonempty: "str_includes e (c # t) \<Longrightarrow> e \<noteq> []"
  by (cases e) auto

lemma already_registered_response:
  assumes "\<not> ok \<or> \<not> truthy (map_of kvs ''success'')"
    and "map_of kvs ''error'' = Some (JStr e)"
    and "str_includes e ''already registered''"
  shows "attempt_round (Resp ok status (Some (JObj kvs))) = AlreadyRegistered"
proof -
  from assms(3) have ne: "e \<noteq> []" by (rule str_includes_nonempty)
  then have "js_or (Some (JStr e)) (JStr (''HTTP '' @ show_nat status)) = JStr e"
    by (simp add: js_or_def)
  then have "attemptRegistration (Resp ok status (Some (JObj kvs))) =
      Some \<lparr>success = False, vendorId = None, error = Some (JStr e), alreadyRegistered = None\<rparr>"
    using assms(1,2) by (simp add: attemptRegistration_def)
  then show ?thesis using assms(3) by (simp add: attempt_round_def)
qed

lemma indicates_already_round:
  assumes "indicates_already_registered out"
  shows "attempt_round out = AlreadyRegistered"
proof (cases out)
  case FetchThrows
  with assms show ?thesis by (simp add: indicates_already_registered_def)
next
  case (Resp ok status body)
  show ?thesis
  proof (cases body)
    case None
    with assms Resp show ?thesis by (simp add: indicates_already_registered_def)
  next
    case (Some data)
    show ?thesis
    proof (cases data)
      case (JObj kvs)
      from assms have un: "\<not> ok \<or> \<not> truthy (map_of kvs ''success'')"
        unfolding Resp Some JObj by (simp add: indicates_already_registered_def)
      from assms have er: "case map_of kvs ''error'' of
             Some (JStr e) \<Rightarrow> str_includes e ''already registered'' | _ \<Rightarrow> False"
        unfolding Resp Some JObj by (simp add: indicates_already_registered_def)
      then obtain v where v: "map_of kvs ''error'' = Some v"
        by (cases "map_of kvs ''error''") simp_all
      with er obtain e where e: "v = JStr e" and inc: "str_includes e ''already registered''"
        by (cases v) simp_all
      show ?thesis unfolding Resp Some JObj
        by (rule already_registered_response[OF un v[unfolded e] inc])
    qed (use assms Resp Some in \<open>simp_all add: indicates_already_registered_def\<close>)
  qed
qed

lemma attempts_count:
  "length (filter is_attempt
     (concat (map (\<lambda>k. if k < m then [Attempt k, Delay d] else [Attempt k]) [a..n])))
   = nat (n + 1 - a)"
proof (induction "nat (n + 1 - a)" arbitrary: a)
  case 0
  then show ?case by simp
next
  case (Suc x)
  then have le: "a \<le> n" by simp
  have x: "x = nat (n + 1 - (a + 1))" using Suc.hyps(2) by simp
  show ?case using Suc.hyps(1)[OF x] le Suc.hyps(2)
    by (simp add: upto_rec1[of a n])
qed

lemma delays_only:
  "filter (\<lambda>e. \<not> is_attempt e)
     (concat (map (\<lambda>k. if k < m then [Attempt k, Delay d] else [Attempt k]) [a..n]))
   = replicate (nat (min n (m - 1) + 1 - a)) (Delay d)"
proof (induction "nat (n + 1 - a)" arbitrary: a)
  case 0
  then have "n < a" by simp
  then show ?case by simp
next
  case (Suc x)
  then have le: "a \<le> n" by simp
  have x: "x = nat (n + 1 - (a + 1))" using Suc.hyps(2) by simp
  have u: "[a..n] = a # [a + 1..n]" using le by (rule upto_rec1)
  note IH = Suc.hyps(1)[OF x]
  show ?case
  proof (cases "a < m")
    case True
    then have "nat (min n (m - 1) + 1 - a) = Suc (nat (min n (m - 1) + 1 - (a + 1)))"
      using le by linarith
    then have "replicate (nat (min n (m - 1) + 1 - a)) (Delay d)
        = Delay d # replicate (nat (min n (m - 1) + 1 - (a + 1))) (Delay d)"
      by (simp only: replicate_Suc)
    then show ?thesis unfolding u using True IH by simp
  next
    case False
    then have "nat (min n (m - 1) + 1 - a) = 0" "nat (min n (m - 1) + 1 - (a + 1)) = 0"
      by linarith+
    then have "replicate (nat (min n (m - 1) + 1 - a)) (Delay d) = []"
      "replicate (nat (min n (m - 1) + 1 - (a + 1))) (Delay d) = []"
      by (simp_all only: replicate_0)
    then show ?thesis unfolding u using False IH by simp
  qed
qed

lemma failed_rounds_last:
  assumes "0 < n"
  shows "last (failed_rounds n d n) = Attempt n"
proof -
  have "[1..n] = [1..n - 1] @ [n]" using assms by (simp add: upto_rec2)
  then have "failed_rounds n d n
      = concat (map (\<lambda>k. if k < n then [Attempt k, Delay d] else [Attempt k]) [1..n - 1])
        @ [Attempt n]"
    unfolding failed_rounds_def by simp
  then show ?thesis by simp
qed

lemma failed_rounds_before:
  assumes "n < m"
  shows "failed_rounds m d n = concat (map (\<lambda>j. [Attempt j, Delay d]) [1..n])"
proof -
  have "map (\<lambda>k. if k < m then [Attempt k, Delay d] else [Attempt k]) [1..n]
      = map (\<lambda>j. [Attempt j, Delay d]) [1..n]"
    by (rule map_cong[OF refl]) (use assms in auto)
  then show ?thesis unfolding failed_rounds_def by (rule arg_cong)
qed

lemma str_includes_head: "str_includes s (c # t) \<Longrightarrow> c \<in> set s"
  by (induction s) auto

lemma digit_char_not_a: "d < 10 \<Longrightarrow> digit_char d \<noteq> CHR ''a''"
proof
  assume d: "d < 10" and e: "digit_char d = CHR ''a''"
  have "(of_char (digit_char d) :: nat) = 48 + d"
    using d by (simp add: digit_char_def)
  moreover have "(of_char CHR ''a'' :: nat) = 97" by simp
  ultimately show False using e d by simp
qed

lemma nat_digits_no_a: "CHR ''a'' \<notin> set (nat_digits fuel n)"
proof (induction fuel arbitrary: n)
  case 0
  then show ?case by simp
next
  case (Suc fuel)
  have "digit_char (n mod 10) \<noteq> CHR ''a''" by (rule digit_char_not_a) simp
  moreover have "n < 10 \<Longrightarrow> digit_char n \<noteq> CHR ''a''" by (rule digit_char_not_a)
  ultimately show ?case using Suc.IH by auto
qed

lemma http_status_text:
  "\<not> str_includes (''HTTP '' @ show_nat n) ''already registered''"
proof
  assume "str_includes (''HTTP '' @ show_nat n) ''already registered''"
  then have "CHR ''a'' \<in> set (''HTTP '' @ show_nat n)"
    by (rule str_includes_head)
  then have "CHR ''a'' \<in> set (show_nat n)" by simp
  then show False unfolding show_nat_def using nat_digits_no_a by blast
qed

lemma attemptRegistration_unsuccessful:
  assumes "data \<noteq> JNull" "\<not> ok \<or> \<not> truthy (js_prop data ''success'')"
  shows "attemptRegistration (Resp ok status (Some data)) =
     Some \<lparr>success = False, vendorId = None,
           error = Some (js_or (js_prop data ''error'') (JStr (''HTTP '' @ show_nat status))),
           alreadyRegistered = None\<rparr>"
  using assms by (cases data) (simp_all add: attemptRegistration_def)

lemma failed_error_round:
  assumes "attemptRegistration out =
     Some \<lparr>success = False, vendorId = None, error = Some e, alreadyRegistered = None\<rparr>"
    and "js_includes e ''already registered'' \<noteq> Some True"
  shows "attempt_round out = Failed"
  using assms
  by (cases e; cases "js_includes e ''already registered''")
     (auto simp: attempt_round_def)

lemma js_or_includes:
  assumes "\<not> mentions_already_registered v"
  shows "js_includes (js_or v (JStr (''HTTP '' @ show_nat status))) ''already registered''
           \<noteq> Some True"
proof (cases "truthy v")
  case False
  then have "js_or v (JStr (''HTTP '' @ show_nat status)) = JStr (''HTTP '' @ show_nat status)"
    by (cases v) (simp_all add: js_or_def)
  then show ?thesis using http_status_text[of status] by simp
next
  case True
  then obtain w where w: "v = Some w" by (cases v) auto
  with True have "js_or v (JStr (''HTTP '' @ show_nat status)) = w"
    by (simp add: js_or_def)
  then show ?thesis using assms w by (cases w) simp_all
qed

lemma attempt_fails_round:
  assumes "attempt_fails out"
  shows "attempt_round out = Failed"
proof (cases out)
  case FetchThrows
  then show ?thesis by (simp add: attempt_round_def attemptRegistration_def)
next
  case (Resp ok status body)
  show ?thesis
  proof (cases body)
    case None
    with Resp show ?thesis by (simp add: attempt_round_def attemptRegistration_def)
  next
    case (Some data)
    show ?thesis
    proof (cases "data = JNull")
      case True
      with Resp Some show ?thesis by (simp add: attempt_round_def attemptRegistration_def)
    next
      case False
      with assms Resp Some have un: "\<not> ok \<or> \<not> truthy (js_prop data ''success'')"
        and nm: "\<not> mentions_already_registered (js_prop data ''error'')"
        by (simp_all add: attempt_fails_def)
      show ?thesis unfolding Resp Some
        by (rule failed_error_round[OF attemptRegistration_unsuccessful[OF False un]
              js_or_includes[OF nm]])
    qed
  qed
qed

text \<open>
  Claim C5. When every request errors or is answered unsuccessfully, with no sign of
  "already registered" in the answer, \<open>register\<close> sends exactly the configured number of
  requests, waits the configured delay after each of them but the last, and returns the
  failure result with the flag unchanged; it has no other outcome. The constructor's
  defaults are 3 attempts and 5000 milliseconds.
\<close>

theorem register_exhausts_attempts:
  assumes "\<not> registered svc"
    and "\<forall>k. 1 \<le> k \<and> k \<le> retryAttempts (config svc) \<longrightarrow> attempt_fails (registry k)"
  shows "register svc registry =
       (failure_result (config svc), svc,
        failed_rounds (retryAttempts (config svc)) (retryDelayMs (config svc))
          (retryAttempts (config svc))) \<and>
     \<not> success (failure_result (config svc)) \<and>
     length (filter is_attempt (failed_rounds (retryAttempts (config svc))
        (retryDelayMs (config svc)) (retryAttempts (config svc))))
       = nat (retryAttempts (config svc)) \<and>
     filter (\<lambda>e. \<not> is_attempt e) (failed_rounds (retryAttempts (config svc))
        (retryDelayMs (config svc)) (retryAttempts (config svc)))
       = replicate (nat (retryAttempts (config svc)) - 1) (Delay (retryDelayMs (config svc))) \<and>
     (0 < retryAttempts (config svc) \<longrightarrow>
        last (failed_rounds (retryAttempts (config svc)) (retryDelayMs (config svc))
          (retryAttempts (config svc))) = Attempt (retryAttempts (config svc))) \<and>
     retryAttempts (config (new_StackRegistrationService su se nm ds ct None dl)) = 3 \<and>
     retryDelayMs (config (new_StackRegistrationService su se nm ds ct ra None)) = 5000"
proof -
  let ?N = "retryAttempts (config svc)" and ?d = "retryDelayMs (config svc)"
  have rounds: "\<forall>k. 1 \<le> k \<and> k \<le> ?N \<longrightarrow> attempt_round (registry k) = Failed"
    using assms(2) attempt_fails_round by blast
  have loop: "register_loop (config svc) registry 1
      = (failure_result (config svc), False, failed_rounds ?N ?d ?N)"
    unfolding failed_rounds_def
    by (rule register_loop_all_failed[where registry = registry, OF rounds])
  have run: "register svc registry = (failure_result (config svc), svc, failed_rounds ?N ?d ?N)"
    unfolding register_def loop using assms(1) by simp
  have cnt: "length (filter is_attempt (failed_rounds ?N ?d ?N)) = nat ?N"
    using attempts_count[of ?N ?d 1 ?N] by (simp add: failed_rounds_def)
  have dl: "filter (\<lambda>e. \<not> is_attempt e) (failed_rounds ?N ?d ?N)
      = replicate (nat ?N - 1) (Delay ?d)"
  proof -
    have "nat (min ?N (?N - 1) + 1 - 1) = nat ?N - 1" by linarith
    then show ?thesis unfolding failed_rounds_def delays_only[of ?N ?d 1 ?N] by (rule arg_cong)
  qed
  have lst: "0 < ?N \<longrightarrow> last (failed_rounds ?N ?d ?N) = Attempt ?N"
    using failed_rounds_last[of ?N ?d] by blast
  have nf: "\<not> success (failure_result (config svc))"
    by (simp add: failure_result_def)
  have df: "retryAttempts (config (new_StackRegistrationService su se nm ds ct None dl)) = 3"
    "retryDelayMs (config (new_StackRegistrationService su se nm ds ct ra None)) = 5000"
    by (simp_all add: new_StackRegistrationService_def)
  show ?thesis
    using run cnt dl lst nf df by blast
qed

lemma show_int_3: "show_int 3 = ''3''"
  by code_simp

lemma failed_rounds_3: "failed_rounds 3 5000 3 = [Attempt 1, Delay 5000, Attempt 2, Delay 5000, Attempt 3]"
  by (simp add: failed_rounds_def upto.simps)

theorem register_exhausts_attempts_witness:
  "\<not> registered svc0 \<and>
   retryAttempts (config svc0) = 3 \<and> retryDelayMs (config svc0) = 5000 \<and>
   register svc0 registry_down =
     (\<lparr>success = False, vendorId = None,
       error = Some (JStr ''Registration failed after 3 attempts''), alreadyRegistered = None\<rparr>,
      svc0, [Attempt 1, Delay 5000, Attempt 2, Delay 5000, Attempt 3]) \<and>
   registry_failing 3 =
     Resp True 200 (Some (JObj [(''success'', JBool False), (''error'', JStr ''server busy'')])) \<and>
   register svc0 registry_failing =
     (\<lparr>success = False, vendorId = None,
       error = Some (JStr ''Registration failed after 3 attempts''), alreadyRegistered = None\<rparr>,
      svc0, [Attempt 1, Delay 5000, Attempt 2, Delay 5000, Attempt 3])"
proof -
  have h1: "\<not> registered svc0"
    by (simp add: svc0_def new_StackRegistrationService_def)
  have c: "retryAttempts (config svc0) = 3" "retryDelayMs (config svc0) = 5000"
    by (simp_all add: svc0_def new_StackRegistrationService_def)
  have h2: "\<forall>k. 1 \<le> k \<and> k \<le> retryAttempts (config svc0) \<longrightarrow> attempt_fails (registry_down k)"
    by (simp add: registry_down_def attempt_fails_def)
  have h3: "\<forall>k. 1 \<le> k \<and> k \<le> retryAttempts (config svc0)
      \<longrightarrow> attempt_fails (registry_failing k)"
    by (simp add: registry_failing_def busy_response_def attempt_fails_def)
  have b: "registry_failing 3 =
     Resp True 200 (Some (JObj [(''success'', JBool False), (''error'', JStr ''server busy'')]))"
    by (simp add: registry_failing_def busy_response_def)
  have f: "failure_result (config svc0) =
     \<lparr>success = False, vendorId = None,
       error = Some (JStr ''Registration failed after 3 attempts''), alreadyRegistered = None\<rparr>"
    unfolding failure_result_def c show_int_3 by simp
  from register_exhausts_attempts[OF h1 h2]
  have r1: "register svc0 registry_down =
      (failure_result (config svc0), svc0, failed_rounds 3 5000 3)"
    unfolding c by blast
  from register_exhausts_attempts[OF h1 h3]
  have r2: "register svc0 registry_failing =
      (failure_result (config svc0), svc0, failed_rounds 3 5000 3)"
    unfolding c by blast
  show ?thesis
    by (intro conjI h1 c b r1[unfolded f failed_rounds_3] r2[unfolded f failed_rounds_3])
qed

text \<open>
  Claim C4. When the response to some request indicates "already registered", and that
  request is reached because no earlier round returned (each failed, or registered and
  then threw while logging the id), \<open>register\<close> returns at once the success result with
  \<open>alreadyRegistered: true\<close> and no error, sets the flag, and sends no further request and
  waits no more: that request is the last event. The response
  \<open>{success: false, error: "already registered"}\<close> is such a response, whatever its status.
\<close>

theorem register_already_registered:
  assumes "\<not> registered svc" and "1 \<le> k" and "k \<le> retryAttempts (config svc)"
    and "\<forall>j. 1 \<le> j \<and> j < k \<longrightarrow>
       attempt_round (registry j) = Failed \<or> attempt_round (registry j) = RegisteredLogThrows"
    and "indicates_already_registered (registry k)"
  shows "register svc registry =
       (already_result, svc\<lparr>registered := True\<rparr>,
        failed_rounds (retryAttempts (config svc)) (retryDelayMs (config svc)) (k - 1)
          @ [Attempt k]) \<and>
     success already_result \<and> alreadyRegistered already_result = Some True \<and>
     error already_result = None \<and>
     length (filter is_attempt
       (failed_rounds (retryAttempts (config svc)) (retryDelayMs (config svc)) (k - 1)
          @ [Attempt k])) = nat k \<and>
     last (failed_rounds (retryAttempts (config svc)) (retryDelayMs (config svc)) (k - 1)
          @ [Attempt k]) = Attempt k \<and>
     indicates_already_registered (Resp ok status (Some (JObj
        [(''success'', JBool False), (''error'', JStr ''already registered'')])))"
proof -
  let ?N = "retryAttempts (config svc)" and ?d = "retryDelayMs (config svc)"
  have r: "attempt_round (registry k) = AlreadyRegistered"
    using assms(5) by (rule indicates_already_round)
  have one: "(1::int) \<le> k" by (rule assms(2))
  have fr: "failed_rounds ?N ?d (k - 1) = concat (map (\<lambda>j. [Attempt j, Delay ?d]) [1..k - 1])"
    by (rule failed_rounds_before) (use assms(3) in simp)
  have loop: "register_loop (config svc) registry 1
      = (already_result, True, failed_rounds ?N ?d (k - 1) @ [Attempt k])"
    unfolding fr
    by (rule register_loop_already[where registry = registry, OF assms(4) one assms(3) r])
  have run: "register svc registry =
       (already_result, svc\<lparr>registered := True\<rparr>, failed_rounds ?N ?d (k - 1) @ [Attempt k])"
    unfolding register_def loop using assms(1) by simp
  have cnt: "length (filter is_attempt (failed_rounds ?N ?d (k - 1) @ [Attempt k])) = nat k"
  proof -
    have "length (filter is_attempt (failed_rounds ?N ?d (k - 1))) = nat (k - 1 + 1 - 1)"
      unfolding failed_rounds_def by (rule attempts_count)
    moreover have "Suc (nat (k - 1 + 1 - 1)) = nat k" using one by linarith
    ultimately show ?thesis by simp
  qed
  have lst: "last (failed_rounds ?N ?d (k - 1) @ [Attempt k]) = Attempt k"
    by simp
  have ar: "success already_result" "alreadyRegistered already_result = Some True"
    "error already_result = None"
    by (simp_all add: already_result_def)
  have ex: "indicates_already_registered (Resp ok status (Some (JObj
        [(''success'', JBool False), (''error'', JStr ''already registered'')])))"
    by (simp add: indicates_already_registered_def)
  show ?thesis
    using run cnt lst ar ex by blast
qed

theorem register_already_registered_witness:
  "\<not> registered svc0 \<and> indicates_already_registered (registry_second_already 2) \<and>
   register svc0 registry_second_already =
     (\<lparr>success = True, vendorId = None, error = None, alreadyRegistered = Some True\<rparr>,
      svc0\<lparr>registered := True\<rparr>, [Attempt 1, Delay 5000, Attempt 2])"
proof -
  have h1: "\<not> registered svc0"
    by (simp add: svc0_def new_StackRegistrationService_def)
  have c: "retryAttempts (config svc0) = 3" "retryDelayMs (config svc0) = 5000"
    by (simp_all add: svc0_def new_StackRegistrationService_def)
  have h2: "(1::int) \<le> 2" by simp
  have h3: "2 \<le> retryAttempts (config svc0)" unfolding c by simp
  have h4: "\<forall>j. 1 \<le> j \<and> j < 2 \<longrightarrow>
       attempt_round (registry_second_already j) = Failed \<or>
       attempt_round (registry_second_already j) = RegisteredLogThrows"
    by (simp add: registry_second_already_def attempt_round_def attemptRegistration_def)
  have h5: "indicates_already_registered (registry_second_already 2)"
    by (simp add: registry_second_already_def already_response_def
        indicates_already_registered_def)
  have fr: "failed_rounds 3 5000 (2 - 1) @ [Attempt 2] = [Attempt 1, Delay 5000, Attempt 2]"
    by (simp add: failed_rounds_def upto.simps)
  from register_already_registered[OF h1 h2 h3 h4 h5]
  have "register svc0 registry_second_already =
      (already_result, svc0\<lparr>registered := True\<rparr>, failed_rounds 3 5000 (2 - 1) @ [Attempt 2])"
    unfolding c by blast
  then show ?thesis
    unfolding fr already_result_def using h1 h5 by blast
qed











lemma strip_slash_append: "strip_slash (s @ ''/'') = s"
  by (simp add: strip_slash_def)

lemma strip_slash_id: "\<not> ends_with_slash s \<Longrightarrow> strip_slash s = s"
  by (auto simp: strip_slash_def ends_with_slash_def)

lemma url_matches_slash:
  assumes "js_prop v ''url'' = Some (JStr u)"
    and "(u = self @ ''/'' \<and> \<not> ends_with_slash self) \<or> (self = u @ ''/'' \<and> \<not> ends_with_slash u)"
  shows "url_matches self v = Some True"
proof -
  from assms(1) have nn: "v \<noteq> JNull" by auto
  from assms(2) have "strip_slash u = strip_slash self"
    using strip_slash_append strip_slash_id by auto
  with assms(1) nn show ?thesis
    by (cases v) (simp_all add: url_matches_def)
qed

lemma url_matches_has_url:
  "has_url v \<Longrightarrow> url_matches self v \<noteq> None"
  by (cases v) (auto simp: has_url_def url_matches_def split: option.splits json.splits)

lemma find_vendor_first:
  assumes "\<forall>w\<in>set vendors. has_url w" and "v \<in> set vendors" and "url_matches self v = Some True"
  shows "\<exists>w pre post. vendors = pre @ w # post \<and> (\<forall>x\<in>set pre. url_matches self x = Some False)
           \<and> url_matches self w = Some True \<and> find_vendor self vendors = Inr (Some w)"
  using assms
proof (induction vendors)
  case Nil
  then show ?case by simp
next
  case (Cons a vs)
  from Cons.prems(1) have "url_matches self a \<noteq> None"
    by (simp add: url_matches_has_url)
  then consider (hit) "url_matches self a = Some True" | (miss) "url_matches self a = Some False"
    by (cases "url_matches self a") auto
  then show ?case
  proof cases
    case hit
    then have "a # vs = [] @ a # vs \<and> (\<forall>x\<in>set []. url_matches self x = Some False)
        \<and> url_matches self a = Some True \<and> find_vendor self (a # vs) = Inr (Some a)"
      by simp
    then show ?thesis by blast
  next
    case miss
    with Cons.prems(2,3) have "v \<in> set vs" by auto
    with Cons.IH Cons.prems obtain w pre post where
      w: "vs = pre @ w # post" "\<forall>x\<in>set pre. url_matches self x = Some False"
         "url_matches self w = Some True" "find_vendor self vs = Inr (Some w)"
      by auto
    have "a # vs = (a # pre) @ w # post \<and> (\<forall>x\<in>set (a # pre). url_matches self x = Some False)
        \<and> url_matches self w = Some True \<and> find_vendor self (a # vs) = Inr (Some w)"
      using w miss by simp
    then show ?thesis by blast
  qed
qed

lemma url_matches_truthy: "url_matches self w = Some True \<Longrightarrow> truthy (Some w)"
  by (cases w) (simp_all add: url_matches_def)

lemma our_vendor_list:
  "our_vendor self (Some (JObj [(''vendors'', JArr vendors)])) = find_vendor self vendors"
  by (simp add: our_vendor_def js_or_def)

lemma verifyRegistration_found:
  assumes "find_vendor (selfUrl (config svc)) vendors = Inr (Some w)" "truthy (Some w)"
  shows "verifyRegistration svc (vendor_list_response vendors) =
     (\<lparr>is_registered = True, vendor_id = js_prop w ''id''\<rparr>, svc\<lparr>registered := True\<rparr>)"
  using assms
  by (simp add: verifyRegistration_def vendor_list_response_def our_vendor_list)

lemma register_status_found:
  assumes "find_vendor self vendors = Inr (Some w)" "truthy (Some w)"
  shows "register_status self (vendor_list_response vendors) = Status200 True w"
  using assms
  by (simp add: register_status_def vendor_list_response_def our_vendor_list js_or_def)

text \<open>
  Claim C7, as amended. For every vendor list whose entries all carry a url text: when
  some entry's url and the configured self-URL differ only by one trailing slash, and the
  shorter of the two does not itself end in a slash, \<open>verifyRegistration\<close> reports
  \<open>registered: true\<close> with the id of the first entry of the list that matches, and sets the
  flag; the status route reports that same entry. In particular the registry url
  \<open>http://host:3000/\<close> matches the self-URL \<open>http://host:3000\<close>.
\<close>

theorem verify_trailing_slash:
  assumes "\<forall>w\<in>set vendors. has_url w"
    and "v \<in> set vendors" and "js_prop v ''url'' = Some (JStr u)"
    and "(u = selfUrl (config svc) @ ''/'' \<and> \<not> ends_with_slash (selfUrl (config svc))) \<or>
         (selfUrl (config svc) = u @ ''/'' \<and> \<not> ends_with_slash u)"
  shows "\<exists>w pre post.
      vendors = pre @ w # post \<and>
      (\<forall>x\<in>set pre. url_matches (selfUrl (config svc)) x = Some False) \<and>
      url_matches (selfUrl (config svc)) w = Some True \<and>
      verifyRegistration svc (vendor_list_response vendors) =
        (\<lparr>is_registered = True, vendor_id = js_prop w ''id''\<rparr>, svc\<lparr>registered := True\<rparr>) \<and>
      register_status (selfUrl (config svc)) (vendor_list_response vendors) = Status200 True w"
proof -
  let ?self = "selfUrl (config svc)"
  have m: "url_matches ?self v = Some True"
    using assms(3,4) by (rule url_matches_slash)
  from find_vendor_first[OF assms(1,2) m] obtain w pre post where
    w: "vendors = pre @ w # post" "\<forall>x\<in>set pre. url_matches ?self x = Some False"
       "url_matches ?self w = Some True" "find_vendor ?self vendors = Inr (Some w)"
    by blast
  from w(3) have t: "truthy (Some w)" by (rule url_matches_truthy)
  show ?thesis
    using w(1,2,3) verifyRegistration_found[OF w(4) t] register_status_found[OF w(4) t]
    by blast
qed

theorem verify_trailing_slash_witness:
  "verifyRegistration (service_at ''http://host:3000'')
       (vendor_list_response [vendor_entry ''http://other:8080'' ''v0'',
                              vendor_entry ''http://host:3000/'' ''v1''])
     = (\<lparr>is_registered = True, vendor_id = Some (JStr ''v1'')\<rparr>,
        (service_at ''http://host:3000'')\<lparr>registered := True\<rparr>) \<and>
   register_status ''http://host:3000''
       (vendor_list_response [vendor_entry ''http://other:8080'' ''v0'',
                              vendor_entry ''http://host:3000/'' ''v1''])
     = Status200 True (vendor_entry ''http://host:3000/'' ''v1'')"
proof -
  let ?svc = "service_at ''http://host:3000''"
  let ?v0 = "vendor_entry ''http://other:8080'' ''v0''"
  let ?v1 = "vendor_entry ''http://host:3000/'' ''v1''"
  have s: "selfUrl (config ?svc) = ''http://host:3000''"
    by (simp add: service_at_def new_StackRegistrationService_def)
  have h1: "\<forall>w\<in>set [?v0, ?v1]. has_url w"
    by (simp add: has_url_def vendor_entry_def)
  have h2: "?v1 \<in> set [?v0, ?v1]" by simp
  have h3: "js_prop ?v1 ''url'' = Some (JStr ''http://host:3000/'')"
    by (simp add: vendor_entry_def)
  have h4: "(''http://host:3000/'' = selfUrl (config ?svc) @ ''/'' \<and>
              \<not> ends_with_slash (selfUrl (config ?svc))) \<or>
            (selfUrl (config ?svc) = ''http://host:3000/'' @ ''/'' \<and>
              \<not> ends_with_slash ''http://host:3000/'')"
    unfolding s by (simp add: ends_with_slash_def)
  from verify_trailing_slash[OF h1 h2 h3 h4] obtain w pre post where
    w: "[?v0, ?v1] = pre @ w # post"
       "\<forall>x\<in>set pre. url_matches (selfUrl (config ?svc)) x = Some False"
       "url_matches (selfUrl (config ?svc)) w = Some True"
       "verifyRegistration ?svc (vendor_list_response [?v0, ?v1]) =
          (\<lparr>is_registered = True, vendor_id = js_prop w ''id''\<rparr>, ?svc\<lparr>registered := True\<rparr>)"
       "register_status (selfUrl (config ?svc)) (vendor_list_response [?v0, ?v1])
          = Status200 True w"
    by blast
  have "w \<in> set [?v0, ?v1]" unfolding w(1) by simp
  moreover have "url_matches (selfUrl (config ?svc)) ?v0 = Some False"
    unfolding s by (simp add: url_matches_def vendor_entry_def strip_slash_def)
  ultimately have "w = ?v1" using w(3) by auto
  moreover have "js_prop ?v1 ''id'' = Some (JStr ''v1'')"
    by (simp add: vendor_entry_def)
  ultimately show ?thesis using w(4,5) unfolding s by simp
qed

text \<open>
  The claim as first stated fails: with the self-URL \<open>http://host:3000/\<close> the entry
  \<open>http://host:3000//\<close>, one trailing slash longer, is not matched, because one slash is
  removed from each side; and when an earlier entry matches as well, the id reported is
  that earlier entry's.
\<close>

theorem verify_trailing_slash_counterexample:
  "''http://host:3000//'' = ''http://host:3000/'' @ ''/'' \<and>
   verifyRegistration (service_at ''http://host:3000/'')
       (vendor_list_response [vendor_entry ''http://host:3000//'' ''v1''])
     = (\<lparr>is_registered = False, vendor_id = None\<rparr>, service_at ''http://host:3000/'') \<and>
   ''http://host:3000/'' = ''http://host:3000'' @ ''/'' \<and>
   verifyRegistration (service_at ''http://host:3000'')
       (vendor_list_response [vendor_entry ''http://host:3000'' ''a'',
                              vendor_entry ''http://host:3000/'' ''b''])
     = (\<lparr>is_registered = True, vendor_id = Some (JStr ''a'')\<rparr>,
        (service_at ''http://host:3000'')\<lparr>registered := True\<rparr>)"
  by (simp add: verifyRegistration_def vendor_list_response_def our_vendor_def js_or_def
      url_matches_def strip_slash_def vendor_entry_def service_at_def
      new_StackRegistrationService_def)

section \<open>Properties of configuration loading\<close>

lemma required_network:
  "required_value (requiredEnvVars e) ''NETWORK'' = configured_network e"
  by (simp add: required_value_def requiredEnvVars_def configured_network_def)

lemma missing_vars_required:
  "missing_vars (requiredEnvVars e) = [] \<longleftrightarrow>
     env_truthy (e ''GOOGLE_PLACES_API_KEY'') \<and> env_truthy (e ''PAYMENT_WALLET_ADDRESS'')"
  by (auto simp: missing_vars_def requiredEnvVars_def env_truthy_def env_or_def
      split: option.splits)

lemma load_x402_config_unsupported:
  "configured_network e \<notin> set validNetworks \<Longrightarrow> load_x402_config e = Exit 1"
  by (simp add: load_x402_config_def Let_def required_network)

lemma required_value_env:
  "required_value (requiredEnvVars e) ''PAYMENT_WALLET_ADDRESS''
     = env_or (e ''PAYMENT_WALLET_ADDRESS'') []"
  "required_value (requiredEnvVars e) ''FACILITATOR_URL''
     = env_or (e ''FACILITATOR_URL'') ''https://x402.org/facilitator''"
  "required_value (requiredEnvVars e) ''PAYMENT_PRICE_USD''
     = env_or (e ''PAYMENT_PRICE_USD'') ''0.01''"
  by (simp_all add: required_value_def requiredEnvVars_def env_or_def split: option.splits)

lemma load_x402_config_eq:
  assumes "configured_network e \<in> set validNetworks"
  shows "load_x402_config e =
     (if env_truthy (e ''GOOGLE_PLACES_API_KEY'') \<and> env_truthy (e ''PAYMENT_WALLET_ADDRESS'')
      then Proceeds (configured e) else Exit 1)"
proof (cases "missing_vars (requiredEnvVars e) = []")
  case True
  then show ?thesis
    using assms missing_vars_required[of e]
    by (simp add: load_x402_config_def Let_def required_network required_value_env
        configured_def)
next
  case False
  then show ?thesis
    using missing_vars_required[of e] by (simp add: load_x402_config_def Let_def)
qed

lemma env_or_truthy: "env_truthy v \<Longrightarrow> env_or v d = env_or v d'"
  by (cases v) (simp_all add: env_truthy_def env_or_def)

lemma getConfig_eq:
  "getConfig e =
     (if env_truthy (e ''GOOGLE_PLACES_API_KEY'') \<and> env_truthy (e ''PAYMENT_WALLET_ADDRESS'')
         \<and> env_truthy (e ''FACILITATOR_URL'')
      then Some (configured e) else None)"
proof (cases "env_truthy (e ''GOOGLE_PLACES_API_KEY'') \<and> env_truthy (e ''PAYMENT_WALLET_ADDRESS'')
         \<and> env_truthy (e ''FACILITATOR_URL'')")
  case True
  then obtain g w f where v: "e ''GOOGLE_PLACES_API_KEY'' = Some g" "g \<noteq> []"
      "e ''PAYMENT_WALLET_ADDRESS'' = Some w" "w \<noteq> []"
      "e ''FACILITATOR_URL'' = Some f" "f \<noteq> []"
    by (auto simp: env_truthy_def split: option.splits)
  then show ?thesis
    by (simp add: getConfig_def required_value_def configured_def configured_network_def
        env_truthy_def env_or_def)
next
  case False
  then show ?thesis
    by (auto simp: getConfig_def env_truthy_def split: option.splits)
qed

lemma network_configured: "network (configured e) = configured_network e"
  by (simp add: configured_def)

lemma server_startup_eq:
  assumes "configured_network e \<in> set validNetworks"
  shows "server_startup e =
     (if env_truthy (e ''GOOGLE_PLACES_API_KEY'') \<and> env_truthy (e ''PAYMENT_WALLET_ADDRESS'')
         \<and> env_truthy (e ''FACILITATOR_URL'')
         \<and> (configured_network e = ''base'' \<longrightarrow>
              env_truthy (e ''CDP_API_KEY_ID'') \<and> env_truthy (e ''CDP_API_KEY_SECRET''))
      then Proceeds (configured e) else Exit 1)"
  unfolding server_startup_def load_x402_config_eq[OF assms] getConfig_eq
  by (auto simp: network_configured)

text \<open>
  Claim C3, as amended. For every configured network outside the supported set, the load
  of \<open>config/x402\<close> exits with code 1, and with it the server start-up, before anything
  is served. For every network inside the set, each loading path proceeds exactly when
  the other settings it requires are present, and then gives the one configuration the
  environment describes, carrying that network: the key and the wallet for the load of
  \<open>config/x402\<close>; these and the facilitator URL for \<open>getConfig\<close>; these and, for
  \<open>base\<close>, both CDP credentials for the server start-up. Otherwise the load and the
  server start-up exit with code 1, and \<open>getConfig\<close> returns \<open>null\<close> without ending
  the process.
\<close>

theorem network_validated_at_startup:
  "(configured_network e \<notin> set validNetworks \<longrightarrow>
      load_x402_config e = Exit 1 \<and> server_startup e = Exit 1) \<and>
   (configured_network e \<in> set validNetworks \<longrightarrow>
      load_x402_config e =
        (if env_truthy (e ''GOOGLE_PLACES_API_KEY'') \<and> env_truthy (e ''PAYMENT_WALLET_ADDRESS'')
         then Proceeds (configured e) else Exit 1) \<and>
      getConfig e =
        (if env_truthy (e ''GOOGLE_PLACES_API_KEY'') \<and> env_truthy (e ''PAYMENT_WALLET_ADDRESS'')
            \<and> env_truthy (e ''FACILITATOR_URL'')
         then Some (configured e) else None) \<and>
      server_startup e =
        (if env_truthy (e ''GOOGLE_PLACES_API_KEY'') \<and> env_truthy (e ''PAYMENT_WALLET_ADDRESS'')
            \<and> env_truthy (e ''FACILITATOR_URL'')
            \<and> (configured_network e = ''base'' \<longrightarrow>
                 env_truthy (e ''CDP_API_KEY_ID'') \<and> env_truthy (e ''CDP_API_KEY_SECRET''))
         then Proceeds (configured e) else Exit 1)) \<and>
   (\<not> (env_truthy (e ''GOOGLE_PLACES_API_KEY'') \<and> env_truthy (e ''PAYMENT_WALLET_ADDRESS'')
        \<and> env_truthy (e ''FACILITATOR_URL'')) \<longrightarrow> getConfig e = None) \<and>
   network (configured e) = configured_network e \<and>
   set validNetworks = {''base'', ''base-sepolia'', ''avalanche'', ''solana''}"
proof -
  have a: "load_x402_config e = Exit 1 \<and> server_startup e = Exit 1"
    if "configured_network e \<notin> set validNetworks"
    using load_x402_config_unsupported[OF that] by (simp add: server_startup_def)
  have b: "getConfig e = None"
    if "\<not> (env_truthy (e ''GOOGLE_PLACES_API_KEY'') \<and> env_truthy (e ''PAYMENT_WALLET_ADDRESS'')
        \<and> env_truthy (e ''FACILITATOR_URL''))"
    using that unfolding getConfig_eq by simp
  have c: "set validNetworks = {''base'', ''base-sepolia'', ''avalanche'', ''solana''}"
    by (simp add: validNetworks_def)
  show ?thesis
    by (intro conjI impI a[THEN conjunct1] a[THEN conjunct2] load_x402_config_eq
        getConfig_eq server_startup_eq b network_configured c)
qed

theorem network_validated_at_startup_witness:
  "configured_network env_unsupported = ''ethereum'' \<and>
   load_x402_config env_unsupported = Exit 1 \<and> server_startup env_unsupported = Exit 1 \<and>
   configured_network env_avalanche = ''avalanche'' \<and>
   load_x402_config env_avalanche =
     Proceeds \<lparr>payTo = ''0x1111111111111111111111111111111111111111'',
               facilitatorUrl = ''https://stack.perkos.xyz'',
               network = ''avalanche'', priceUsd = ''0.01''\<rparr> \<and>
   getConfig env_avalanche =
     Some \<lparr>payTo = ''0x1111111111111111111111111111111111111111'',
           facilitatorUrl = ''https://stack.perkos.xyz'',
           network = ''avalanche'', priceUsd = ''0.01''\<rparr> \<and>
   server_startup env_avalanche =
     Proceeds \<lparr>payTo = ''0x1111111111111111111111111111111111111111'',
               facilitatorUrl = ''https://stack.perkos.xyz'',
               network = ''avalanche'', priceUsd = ''0.01''\<rparr> \<and>
   getConfig env_without_facilitator = None \<and>
   server_startup env_without_facilitator = Exit 1"
proof -
  have n1: "configured_network env_unsupported = ''ethereum''"
    by (simp add: configured_network_def env_unsupported_def env_or_def)
  have h1: "configured_network env_unsupported \<notin> set validNetworks"
    unfolding n1 by (simp add: validNetworks_def)
  have n2: "configured_network env_avalanche = ''avalanche''"
    by (simp add: configured_network_def env_avalanche_def env_or_def)
  have h2: "configured_network env_avalanche \<in> set validNetworks"
    unfolding n2 by (simp add: validNetworks_def)
  have n3: "configured_network env_without_facilitator = ''avalanche''"
    by (simp add: configured_network_def env_without_facilitator_def env_avalanche_def env_or_def)
  have h3: "configured_network env_without_facilitator \<in> set validNetworks"
    unfolding n3 by (simp add: validNetworks_def)
  have p: "env_truthy (env_avalanche ''GOOGLE_PLACES_API_KEY'')"
    "env_truthy (env_avalanche ''PAYMENT_WALLET_ADDRESS'')"
    "env_truthy (env_avalanche ''FACILITATOR_URL'')"
    by (simp_all add: env_avalanche_def env_unsupported_def env_truthy_def)
  have nb: "configured_network env_avalanche \<noteq> ''base''"
    unfolding n2 by simp
  have m: "\<not> env_truthy (env_without_facilitator ''FACILITATOR_URL'')"
    by (simp add: env_without_facilitator_def env_truthy_def)
  have cfg: "configured env_avalanche =
     \<lparr>payTo = ''0x1111111111111111111111111111111111111111'',
      facilitatorUrl = ''https://stack.perkos.xyz'',
      network = ''avalanche'', priceUsd = ''0.01''\<rparr>"
    by (simp add: configured_def n2) (simp add: env_avalanche_def env_unsupported_def env_or_def)
  note t1 = network_validated_at_startup[of env_unsupported, THEN conjunct1, THEN mp, OF h1]
  note t2 = network_validated_at_startup[of env_avalanche, THEN conjunct2, THEN conjunct1,
      THEN mp, OF h2]
  note t3 = network_validated_at_startup[of env_without_facilitator, THEN conjunct2,
      THEN conjunct1, THEN mp, OF h3]
  have r1: "load_x402_config env_avalanche = Proceeds (configured env_avalanche)"
    using t2[THEN conjunct1] p by simp
  have r2: "getConfig env_avalanche = Some (configured env_avalanche)"
    using t2[THEN conjunct2, THEN conjunct1] p by simp
  have r3: "server_startup env_avalanche = Proceeds (configured env_avalanche)"
    using t2[THEN conjunct2, THEN conjunct2] p nb by simp
  have r4: "getConfig env_without_facilitator = None"
    using t3[THEN conjunct2, THEN conjunct1] m by simp
  have r5: "server_startup env_without_facilitator = Exit 1"
    using t3[THEN conjunct2, THEN conjunct2] m by simp
  show ?thesis
    by (intro conjI n1 t1[THEN conjunct1] t1[THEN conjunct2] n2 r1[unfolded cfg]
        r2[unfolded cfg] r3[unfolded cfg] r4 r5)
qed

text \<open>
  The claim as first stated fails twice. \<open>getConfig\<close> returns a configuration for a
  network outside the supported set; and with a supported network the server start-up
  still exits when another setting is missing, here the CDP credentials for \<open>base\<close>.
\<close>

theorem network_validation_counterexample:
  "configured_network env_unsupported = ''ethereum'' \<and>
   ''ethereum'' \<notin> set validNetworks \<and>
   getConfig env_unsupported =
     Some \<lparr>payTo = ''0x1111111111111111111111111111111111111111'',
           facilitatorUrl = ''https://stack.perkos.xyz'',
           network = ''ethereum'',
           priceUsd = ''0.01''\<rparr> \<and>
   configured_network env_base_without_cdp = ''base'' \<and>
   ''base'' \<in> set validNetworks \<and>
   server_startup env_base_without_cdp = Exit 1"
  by (simp add: configured_network_def env_unsupported_def env_base_without_cdp_def env_or_def
      validNetworks_def getConfig_def required_value_def env_truthy_def server_startup_def
      load_x402_config_def requiredEnvVars_def missing_vars_def)

section \<open>Properties of the success response\<close>

lemma map_of_obj_set_other:
  "k' \<noteq> k \<Longrightarrow> map_of (obj_set k v kvs) k' = map_of kvs k'"
proof -
  assume ne: "k' \<noteq> k"
  have "map_of (map (\<lambda>(a, b). if a = k then (a, v) else (a, b)) kvs) k' = map_of kvs k'"
    by (induction kvs) (use ne in auto)
  moreover have "map_of (kvs @ [(k, v)]) k' = map_of kvs k'"
    by (induction kvs) (use ne in auto)
  ultimately show ?thesis by (simp only: obj_set_def if_distrib[of "\<lambda>l. map_of l k'"] if_cancel)
qed

lemma map_of_obj_set_same: "map_of (obj_set k v kvs) k = Some v"
proof -
  have "k \<in> fst ` set kvs \<Longrightarrow>
      map_of (map (\<lambda>(a, b). if a = k then (a, v) else (a, b)) kvs) k = Some v"
    by (induction kvs) auto
  moreover have "k \<notin> fst ` set kvs \<Longrightarrow> map_of (kvs @ [(k, v)]) k = Some v"
    by (induction kvs) auto
  ultimately show ?thesis by (simp add: obj_set_def)
qed

text \<open>
  Claim C1, as amended. For a request that passes validation and a search that succeeds,
  the body of the 200 response is the search result with its \<open>metadata\<close> entry replaced by
  the settlement metadata: every other entry of the search result, \<open>status\<close> and
  \<open>results\<close> for the result of \<open>textSearch\<close>, is unchanged.
\<close>

theorem success_body_frame:
  "(validateRequest rnd body = [] \<and> map_of kvs ''results'' = Some results \<and> results \<noteq> JNull \<longrightarrow>
      text_search_handler rnd x402Config now body (Some (JObj kvs))
        = Ok200 (success_body x402Config now kvs)) \<and>
   (\<forall>k. k \<noteq> ''metadata'' \<longrightarrow> map_of (success_body x402Config now kvs) k = map_of kvs k) \<and>
   map_of (success_body x402Config now kvs) ''metadata''
     = Some (settlement_metadata x402Config now) \<and>
   (validateRequest rnd body = [] \<longrightarrow>
      text_search_handler rnd x402Config now body
          (Some (textSearch_response data_status places query t))
        = Ok200 [(''status'', JStr data_status), (''results'', JArr places),
                 (''metadata'', settlement_metadata x402Config now)])"
proof -
  have a: "text_search_handler rnd x402Config now body (Some (JObj kvs))
        = Ok200 (success_body x402Config now kvs)"
    if "validateRequest rnd body = []" "map_of kvs ''results'' = Some results" "results \<noteq> JNull"
    using that by (cases results) (simp_all add: text_search_handler_def)
  have b: "map_of (success_body x402Config now kvs) k = map_of kvs k"
    if "k \<noteq> ''metadata''" for k
    using that by (simp add: success_body_def map_of_obj_set_other)
  have c: "map_of (success_body x402Config now kvs) ''metadata''
     = Some (settlement_metadata x402Config now)"
    by (simp add: success_body_def map_of_obj_set_same)
  have d: "text_search_handler rnd x402Config now body
          (Some (textSearch_response data_status places query t))
        = Ok200 [(''status'', JStr data_status), (''results'', JArr places),
                 (''metadata'', settlement_metadata x402Config now)]"
    if "validateRequest rnd body = []"
    using that
    by (simp add: text_search_handler_def textSearch_response_def success_body_def obj_set_def)
  show ?thesis using a b c d by blast
qed

theorem success_body_frame_witness:
  "validateRequest (\<lambda>x. x) body_example = [] \<and>
   text_search_handler (\<lambda>x. x) config_example ''2025-01-01T00:00:01.000Z'' body_example
       (Some search_example)
     = Ok200 [(''status'', JStr ''OK''), (''results'', JArr []),
              (''metadata'', settlement_metadata config_example ''2025-01-01T00:00:01.000Z'')] \<and>
   map_of (success_body config_example ''2025-01-01T00:00:01.000Z'' search_fields) ''status''
     = Some (JStr ''OK'') \<and>
   map_of (success_body config_example ''2025-01-01T00:00:01.000Z'' search_fields) ''results''
     = Some (JArr []) \<and>
   text_search_handler (\<lambda>x. x) config_example ''2025-01-01T00:00:01.000Z'' body_example
       (Some (JObj search_fields))
     = Ok200 (success_body config_example ''2025-01-01T00:00:01.000Z'' search_fields)"
proof -
  let ?now = "''2025-01-01T00:00:01.000Z''"
  have h: "validateRequest (\<lambda>x. x) body_example = []"
    by (simp add: body_example_def validateRequest_def query_errors_def location_errors_def
        radius_errors_def trim_def is_ws_def)
  have m1: "map_of search_fields ''status'' = Some (JStr ''OK'')"
    and m2: "map_of search_fields ''results'' = Some (JArr [])"
    by (simp_all add: search_fields_def)
  have nn: "JArr [] \<noteq> JNull" by simp
  note t = success_body_frame[of "\<lambda>x. x" body_example search_fields "JArr []" config_example
      ?now "''OK''" "[]" "''coffee shops''" "''2025-01-01T00:00:00.000Z''"]
  have r1: "text_search_handler (\<lambda>x. x) config_example ?now body_example
       (Some (JObj search_fields)) = Ok200 (success_body config_example ?now search_fields)"
    by (rule t[THEN conjunct1, THEN mp]) (intro conjI h m2 nn)
  have r2: "text_search_handler (\<lambda>x. x) config_example ?now body_example (Some search_example)
     = Ok200 [(''status'', JStr ''OK''), (''results'', JArr []),
              (''metadata'', settlement_metadata config_example ?now)]"
    unfolding search_example_def
    by (rule t[THEN conjunct2, THEN conjunct2, THEN conjunct2, THEN mp, OF h])
  have s1: "''status'' \<noteq> ''metadata''" and s2: "''results'' \<noteq> ''metadata''"
    by simp_all
  note other = t[THEN conjunct2, THEN conjunct1, THEN spec, THEN mp]
  have r3: "map_of (success_body config_example ?now search_fields) ''status''
      = Some (JStr ''OK'')"
    unfolding m1[symmetric] by (rule other[OF s1])
  have r4: "map_of (success_body config_example ?now search_fields) ''results''
      = Some (JArr [])"
    unfolding m2[symmetric] by (rule other[OF s2])
  show ?thesis
    by (intro conjI h r2 r3 r4 r1)
qed

text \<open>
  The claim as first stated fails: the metadata object that \<open>textSearch\<close> returned, with
  its \<open>query\<close>, is not in the response; the settlement metadata stands in its place.
\<close>

theorem success_body_frame_counterexample:
  "text_search_handler (\<lambda>x. x) config_example ''2025-01-01T00:00:01.000Z'' body_example
       (Some search_example)
     = Ok200 (success_body config_example ''2025-01-01T00:00:01.000Z'' search_fields) \<and>
   js_prop search_example ''metadata''
     = Some (JObj [(''query'', JStr ''coffee shops''), (''cost'', JStr ''$0.01''),
                   (''timestamp'', JStr ''2025-01-01T00:00:00.000Z'')]) \<and>
   map_of (success_body config_example ''2025-01-01T00:00:01.000Z'' search_fields) ''metadata''
     = Some (JObj [(''cost'', JStr ''$0.05''), (''protocol'', JStr ''x402 v1.0''),
                   (''payment_method'', JStr ''gasless_micropayment''),
                   (''facilitator_used'', JBool True), (''network'', JStr ''avalanche''),
                   (''timestamp'', JStr ''2025-01-01T00:00:01.000Z'')]) \<and>
   map_of (success_body config_example ''2025-01-01T00:00:01.000Z'' search_fields) ''metadata''
     \<noteq> js_prop search_example ''metadata''"
  by (simp add: text_search_handler_def body_example_def validateRequest_def query_errors_def
      location_errors_def radius_errors_def trim_def is_ws_def success_body_def
      search_example_def search_fields_def textSearch_response_def obj_set_def
      settlement_metadata_def config_example_def)

end
